theory Spec2Isabelle
  imports Main "HOL-Library.Sublist"
begin

section \<open>Data model\<close>

text \<open>
  The storage module \<^verbatim>\<open>src/data/storage.js\<close> keeps two module-level arrays,
  \<^verbatim>\<open>students\<close> and \<^verbatim>\<open>teachers\<close>. A student is an object with the string
  properties \<^verbatim>\<open>id\<close>, \<^verbatim>\<open>name\<close>, \<^verbatim>\<open>email\<close> and \<^verbatim>\<open>password\<close>; a teacher has the
  array \<^verbatim>\<open>specialization\<close> in addition. The property \<^verbatim>\<open>id\<close> is written \<open>id'\<close>
  here, because \<open>id\<close> is the identity function of HOL.

  A string is a list of UTF-16 code units. The code units of the model are those of
  Latin-1, U+0000 to U+00FF (\<open>Latin c\<close> is the code unit with the code of \<open>c\<close>),
  and the three Greek sigmas: the capital U+03A3, the small U+03C3 and the final
  small U+03C2. Strings with other code units are outside the model. On this
  alphabet \<^verbatim>\<open>toLowerCase\<close> is given in full below, including the one rule of the
  Unicode case conversion that depends on the context of a letter. \<open>latin1 s\<close>
  is the string with the characters of \<open>s\<close>.
\<close>

datatype code_unit = Latin char | Capital_sigma | Small_sigma | Final_sigma

type_synonym jsstring = "code_unit list"

abbreviation latin1 :: "string \<Rightarrow> jsstring" where
  "latin1 s \<equiv> map Latin s"

record student =
  id' :: jsstring
  name :: jsstring
  email :: jsstring
  password :: jsstring

record teacher = student +
  specialization :: "jsstring list"

text \<open>
  The argument objects \<^verbatim>\<open>studentData\<close>, \<^verbatim>\<open>teacherData\<close> and \<^verbatim>\<open>updates\<close> may lack
  any property: \<open>None\<close> is an absent (\<^verbatim>\<open>undefined\<close>) property. For
  \<open>data_specialization\<close>, \<open>None\<close> is any value that \<^verbatim>\<open>Array.isArray\<close> rejects.
\<close>

record student_data =
  data_id :: "jsstring option"
  data_name :: "jsstring option"
  data_email :: "jsstring option"
  data_password :: "jsstring option"

record teacher_data = student_data +
  data_specialization :: "jsstring list option"

record store =
  students :: "student list"
  teachers :: "teacher list"

text \<open>
  Every \<^verbatim>\<open>throw new Error(...)\<close> of the module is a value. The constructor is the
  error kind, the argument is the message of the source.
\<close>

datatype error =
    ValidationError jsstring
  | DuplicateKeyError jsstring
  | NotFoundError jsstring
  | ImportError jsstring

section \<open>JavaScript primitives\<close>

text \<open>Truthiness of a string-valued property: absent and \<^verbatim>\<open>""\<close> are falsy.\<close>

definition truthy :: "jsstring option \<Rightarrow> bool" where
  "truthy v = (case v of None \<Rightarrow> False | Some s \<Rightarrow> s \<noteq> [])"

text \<open>\<^verbatim>\<open>a || b\<close> on an optional string and a string.\<close>

definition or_else :: "jsstring option \<Rightarrow> jsstring \<Rightarrow> jsstring" where
  "or_else v d = (case v of None \<Rightarrow> d | Some s \<Rightarrow> (if s = [] then d else s))"

text \<open>\<^verbatim>\<open>s.slice(-3)\<close>: the last three code units, or all of \<open>s\<close> when it is shorter.\<close>

definition slice_last3 :: "jsstring \<Rightarrow> jsstring" where
  "slice_last3 s = drop (length s - 3) s"

text \<open>
  \<^verbatim>\<open>toLowerCase\<close> is the default case conversion of Unicode. In Latin-1 the
  capital letters are \<^verbatim>\<open>A\<close> to \<^verbatim>\<open>Z\<close> (65 to 90) and the letters 192 to 214 and 216
  to 222; the small letter is 32 code units later. Every other code unit of Latin-1
  is kept.
\<close>

definition capital_latin1 :: "char \<Rightarrow> bool" where
  "capital_latin1 c =
     (let n = of_char c :: nat in
      (65 \<le> n \<and> n \<le> 90) \<or> (192 \<le> n \<and> n \<le> 214) \<or> (216 \<le> n \<and> n \<le> 222))"

definition toLowerLatin1 :: "char \<Rightarrow> char" where
  "toLowerLatin1 c = (if capital_latin1 c then char_of (of_char c + (32::nat)) else c)"

text \<open>
  The Unicode properties Cased and Case_Ignorable on the alphabet. In Latin-1 the
  cased code units are the letters (with 170, 181 and 186), the case-ignorable ones
  are \<^verbatim>\<open>' . : ^ `\<close> and 168, 173, 175, 180, 183, 184.
\<close>

definition cased :: "code_unit \<Rightarrow> bool" where
  "cased u =
     (case u of
        Latin c \<Rightarrow>
          (let n = of_char c :: nat in
           (65 \<le> n \<and> n \<le> 90) \<or> (97 \<le> n \<and> n \<le> 122) \<or> n = 170 \<or> n = 181 \<or> n = 186 \<or>
           (192 \<le> n \<and> n \<le> 214) \<or> (216 \<le> n \<and> n \<le> 246) \<or> (248 \<le> n \<and> n \<le> 255))
      | Capital_sigma \<Rightarrow> True
      | Small_sigma \<Rightarrow> True
      | Final_sigma \<Rightarrow> True)"

definition case_ignorable :: "code_unit \<Rightarrow> bool" where
  "case_ignorable u =
     (case u of
        Latin c \<Rightarrow> (of_char c :: nat) \<in> set [39, 46, 58, 94, 96, 168, 173, 175, 180, 183, 184]
      | Capital_sigma \<Rightarrow> False
      | Small_sigma \<Rightarrow> False
      | Final_sigma \<Rightarrow> False)"

text \<open>
  The condition Final_Sigma of Unicode for a capital sigma: before it there is a
  cased letter, followed by any number of case-ignorable code units, and after it
  there is no run of case-ignorable code units followed by a cased letter. Both
  contexts are read outwards from the sigma, so \<open>prev\<close> is the text before the
  sigma with the nearest code unit first.
\<close>

fun cased_after_ignorables :: "jsstring \<Rightarrow> bool" where
  "cased_after_ignorables [] = False"
| "cased_after_ignorables (u # us) =
     (if cased u then True
      else if case_ignorable u then cased_after_ignorables us
      else False)"

definition final_sigma :: "jsstring \<Rightarrow> jsstring \<Rightarrow> bool" where
  "final_sigma prev rest \<longleftrightarrow>
     cased_after_ignorables prev \<and> \<not> cased_after_ignorables rest"

definition lower_unit :: "jsstring \<Rightarrow> jsstring \<Rightarrow> code_unit \<Rightarrow> code_unit" where
  "lower_unit prev rest u =
     (case u of
        Latin c \<Rightarrow> Latin (toLowerLatin1 c)
      | Capital_sigma \<Rightarrow> (if final_sigma prev rest then Final_sigma else Small_sigma)
      | Small_sigma \<Rightarrow> Small_sigma
      | Final_sigma \<Rightarrow> Final_sigma)"

fun lower_from :: "jsstring \<Rightarrow> jsstring \<Rightarrow> jsstring" where
  "lower_from prev [] = []"
| "lower_from prev (u # rest) = lower_unit prev rest u # lower_from (u # prev) rest"

definition toLowerCase :: "jsstring \<Rightarrow> jsstring" where
  "toLowerCase s = lower_from [] s"

text \<open>\<^verbatim>\<open>s.includes(q)\<close>: \<open>q\<close> occurs in \<open>s\<close> as a contiguous substring.\<close>

definition includes_str :: "jsstring \<Rightarrow> jsstring \<Rightarrow> bool" where
  "includes_str s q = sublist q s"

text \<open>\<^verbatim>\<open>xs.findIndex(p)\<close>: the first index whose element satisfies \<open>p\<close>; \<open>None\<close> is \<open>-1\<close>.\<close>

fun findIndex :: "('a \<Rightarrow> bool) \<Rightarrow> 'a list \<Rightarrow> nat option" where
  "findIndex p [] = None"
| "findIndex p (x # xs) =
     (if p x then Some 0 else map_option Suc (findIndex p xs))"

text \<open>\<^verbatim>\<open>xs.splice(i, 1)\<close> on the array itself.\<close>

definition splice1 :: "nat \<Rightarrow> 'a list \<Rightarrow> 'a list" where
  "splice1 i xs = take i xs @ drop (Suc i) xs"

section \<open>The backing modules\<close>

text \<open>
  Modelled from the spec: \<^verbatim>\<open>saveStudents\<close> and \<^verbatim>\<open>saveTeachers\<close> of the modules
  \<^verbatim>\<open>./students\<close> and \<^verbatim>\<open>./teachers\<close>, which are not part of the sources at hand. The
  collection handed over becomes the collection in memory (a whole-collection
  replacement) and is written to durable storage; a failure of that write is
  caught and suppressed. Durable storage is read by no operation of the module, so
  the state holds the collections in memory only.
\<close>

definition saveStudents :: "student list \<Rightarrow> store \<Rightarrow> store" where
  "saveStudents data st = st\<lparr>students := data\<rparr>"

definition saveTeachers :: "teacher list \<Rightarrow> store \<Rightarrow> store" where
  "saveTeachers data st = st\<lparr>teachers := data\<rparr>"

text \<open>
  Modelled from the spec: \<^verbatim>\<open>resetStudents\<close> and \<^verbatim>\<open>resetTeachers\<close> replace a
  collection with its built-in seed. The seed data is not part of the sources at
  hand and is a parameter.
\<close>

definition resetStudents :: "student list \<Rightarrow> store \<Rightarrow> store" where
  "resetStudents seed st = st\<lparr>students := seed\<rparr>"

definition resetTeachers :: "teacher list \<Rightarrow> store \<Rightarrow> store" where
  "resetTeachers seed st = st\<lparr>teachers := seed\<rparr>"

section \<open>Students\<close>

definition getStudents :: "store \<Rightarrow> student list" where
  "getStudents st = map (\<lambda>s. s) (students st)"

definition getStudentById :: "jsstring \<Rightarrow> store \<Rightarrow> student option" where
  "getStudentById i st = List.find (\<lambda>s. id' s = i) (students st)"

definition createStudent :: "student_data \<Rightarrow> store \<Rightarrow> error + (student \<times> store)" where
  "createStudent studentData st =
     (if \<not> truthy (data_id studentData) \<or> \<not> truthy (data_name studentData)
         \<or> \<not> truthy (data_email studentData)
      then Inl (ValidationError (latin1 ''Student must have id, name, and email''))
      else
        let i = the (data_id studentData) in
        if List.find (\<lambda>s. id' s = i) (students st) \<noteq> None
        then Inl (DuplicateKeyError (latin1 ''Student with ID '' @ i @ latin1 '' already exists''))
        else
          let newStudent = \<lparr> id' = i,
                name = the (data_name studentData),
                email = the (data_email studentData),
                password = or_else (data_password studentData)
                             (latin1 ''Student@'' @ slice_last3 i) \<rparr>;
              st1 = st\<lparr>students := students st @ [newStudent]\<rparr>;
              st2 = saveStudents (students st1) st1
          in Inr (newStudent, st2))"

text \<open>
  \<^verbatim>\<open>{ ...students[index], ...updates, id }\<close>: a property of \<^verbatim>\<open>updates\<close> replaces
  the stored one, and \<^verbatim>\<open>id\<close> is set last to the id looked up.
\<close>

definition mergeStudent :: "student \<Rightarrow> student_data \<Rightarrow> jsstring \<Rightarrow> student" where
  "mergeStudent old updates i =
     \<lparr> id' = i,
       name = (case data_name updates of None \<Rightarrow> name old | Some v \<Rightarrow> v),
       email = (case data_email updates of None \<Rightarrow> email old | Some v \<Rightarrow> v),
       password = (case data_password updates of None \<Rightarrow> password old | Some v \<Rightarrow> v) \<rparr>"

definition updateStudent :: "jsstring \<Rightarrow> student_data \<Rightarrow> store \<Rightarrow> error + (student \<times> store)" where
  "updateStudent i updates st =
     (case findIndex (\<lambda>s. id' s = i) (students st) of
        None \<Rightarrow> Inl (NotFoundError (latin1 ''Student with ID '' @ i @ latin1 '' not found''))
      | Some index \<Rightarrow>
          let st1 = st\<lparr>students :=
                      (students st)[index := mergeStudent (students st ! index) updates i]\<rparr>;
              st2 = saveStudents (students st1) st1
          in Inr (students st2 ! index, st2))"

definition deleteStudent :: "jsstring \<Rightarrow> store \<Rightarrow> error + (bool \<times> store)" where
  "deleteStudent i st =
     (case findIndex (\<lambda>s. id' s = i) (students st) of
        None \<Rightarrow> Inr (False, st)
      | Some index \<Rightarrow>
          let st1 = st\<lparr>students := splice1 index (students st)\<rparr>;
              st2 = saveStudents (students st1) st1
          in Inr (True, st2))"

definition searchStudents :: "jsstring \<Rightarrow> store \<Rightarrow> student list" where
  "searchStudents query st =
     (let q = toLowerCase query in
      filter (\<lambda>s. includes_str (toLowerCase (name s)) q \<or> includes_str (toLowerCase (email s)) q)
        (students st))"

section \<open>Teachers\<close>

definition getTeachers :: "store \<Rightarrow> teacher list" where
  "getTeachers st = map (\<lambda>t. t) (teachers st)"

definition getTeacherById :: "jsstring \<Rightarrow> store \<Rightarrow> teacher option" where
  "getTeacherById i st = List.find (\<lambda>t. id' t = i) (teachers st)"

definition createTeacher :: "teacher_data \<Rightarrow> store \<Rightarrow> error + (teacher \<times> store)" where
  "createTeacher teacherData st =
     (if \<not> truthy (data_id teacherData) \<or> \<not> truthy (data_name teacherData)
         \<or> \<not> truthy (data_email teacherData)
      then Inl (ValidationError (latin1 ''Teacher must have id, name, and email''))
      else
        let i = the (data_id teacherData) in
        if List.find (\<lambda>t. id' t = i) (teachers st) \<noteq> None
        then Inl (DuplicateKeyError (latin1 ''Teacher with ID '' @ i @ latin1 '' already exists''))
        else
          let newTeacher = \<lparr> id' = i,
                name = the (data_name teacherData),
                email = the (data_email teacherData),
                password = or_else (data_password teacherData)
                             (latin1 ''Teacher@'' @ slice_last3 i),
                specialization =
                  (case data_specialization teacherData of None \<Rightarrow> [] | Some xs \<Rightarrow> xs) \<rparr>;
              st1 = st\<lparr>teachers := teachers st @ [newTeacher]\<rparr>;
              st2 = saveTeachers (teachers st1) st1
          in Inr (newTeacher, st2))"

text \<open>
  In \<^verbatim>\<open>updates\<close> the property \<^verbatim>\<open>specialization\<close> is merged like every other one;
  there \<open>None\<close> is an absent property.
\<close>

definition mergeTeacher :: "teacher \<Rightarrow> teacher_data \<Rightarrow> jsstring \<Rightarrow> teacher" where
  "mergeTeacher old updates i =
     \<lparr> id' = i,
       name = (case data_name updates of None \<Rightarrow> name old | Some v \<Rightarrow> v),
       email = (case data_email updates of None \<Rightarrow> email old | Some v \<Rightarrow> v),
       password = (case data_password updates of None \<Rightarrow> password old | Some v \<Rightarrow> v),
       specialization =
         (case data_specialization updates of None \<Rightarrow> specialization old | Some v \<Rightarrow> v) \<rparr>"

definition updateTeacher :: "jsstring \<Rightarrow> teacher_data \<Rightarrow> store \<Rightarrow> error + (teacher \<times> store)" where
  "updateTeacher i updates st =
     (case findIndex (\<lambda>t. id' t = i) (teachers st) of
        None \<Rightarrow> Inl (NotFoundError (latin1 ''Teacher with ID '' @ i @ latin1 '' not found''))
      | Some index \<Rightarrow>
          let st1 = st\<lparr>teachers :=
                      (teachers st)[index := mergeTeacher (teachers st ! index) updates i]\<rparr>;
              st2 = saveTeachers (teachers st1) st1
          in Inr (teachers st2 ! index, st2))"

definition deleteTeacher :: "jsstring \<Rightarrow> store \<Rightarrow> error + (bool \<times> store)" where
  "deleteTeacher i st =
     (case findIndex (\<lambda>t. id' t = i) (teachers st) of
        None \<Rightarrow> Inr (False, st)
      | Some index \<Rightarrow>
          let st1 = st\<lparr>teachers := splice1 index (teachers st)\<rparr>;
              st2 = saveTeachers (teachers st1) st1
          in Inr (True, st2))"

definition searchTeachers :: "jsstring \<Rightarrow> store \<Rightarrow> teacher list" where
  "searchTeachers query st =
     (let q = toLowerCase query in
      filter (\<lambda>t. includes_str (toLowerCase (name t)) q \<or> includes_str (toLowerCase (email t)) q)
        (teachers st))"

section \<open>Reset, export and import\<close>

definition resetAllData :: "student list \<Rightarrow> teacher list \<Rightarrow> store \<Rightarrow> store" where
  "resetAllData seedStudents seedTeachers st =
     resetTeachers seedTeachers (resetStudents seedStudents st)"

text \<open>
  The object that \<^verbatim>\<open>exportData\<close> returns and \<^verbatim>\<open>importData\<close> takes. \<open>None\<close> in
  \<open>data_students\<close> or \<open>data_teachers\<close> is a property that is absent or not an
  array (an array is truthy, also the empty one).
\<close>

record backup_data =
  data_students :: "student list option"
  data_teachers :: "teacher list option"
  exportDate :: "jsstring option"

text \<open>
  \<^verbatim>\<open>JSON.parse(JSON.stringify(xs))\<close> builds new objects with the same strings in
  the same order; as values they are the records of \<open>xs\<close>. The time of the call is the
  parameter \<open>now\<close>.
\<close>

definition exportData :: "jsstring \<Rightarrow> store \<Rightarrow> backup_data" where
  "exportData now st =
     \<lparr> data_students = Some (students st),
       data_teachers = Some (teachers st),
       exportDate = Some now \<rparr>"

text \<open>
  The argument \<open>None\<close> is \<^verbatim>\<open>null\<close> or \<^verbatim>\<open>undefined\<close>: reading \<^verbatim>\<open>data.students\<close> throws
  inside the \<^verbatim>\<open>try\<close> block, and the \<^verbatim>\<open>catch\<close> throws the import error (its message
  ends with the text of the engine's error, left out here).
\<close>

definition importData :: "backup_data option \<Rightarrow> store \<Rightarrow> error + store" where
  "importData data st =
     (case data of
        None \<Rightarrow> Inl (ImportError (latin1 ''Failed to import data: ''))
      | Some d \<Rightarrow>
          let st1 = (case data_students d of None \<Rightarrow> st | Some xs \<Rightarrow> saveStudents xs st);
              st2 = (case data_teachers d of None \<Rightarrow> st1 | Some ys \<Rightarrow> saveTeachers ys st1)
          in Inr st2)"

section \<open>Sequences of calls\<close>

datatype operation =
    CreateStudent student_data
  | UpdateStudent jsstring student_data
  | DeleteStudent jsstring
  | SearchStudents jsstring
  | CreateTeacher teacher_data
  | UpdateTeacher jsstring teacher_data
  | DeleteTeacher jsstring
  | SearchTeachers jsstring
  | ExportData jsstring
  | ImportData "backup_data option"
  | ResetAllData

text \<open>
  The collections after one call. A call that throws leaves them as they were:
  every \<^verbatim>\<open>throw\<close> of the module comes before the first write.
\<close>

definition after :: "error + ('a \<times> store) \<Rightarrow> store \<Rightarrow> store" where
  "after r st = (case r of Inl e \<Rightarrow> st | Inr (v, st') \<Rightarrow> st')"

fun step :: "student list \<Rightarrow> teacher list \<Rightarrow> operation \<Rightarrow> store \<Rightarrow> store" where
  "step ss ts (CreateStudent d) st = after (createStudent d st) st"
| "step ss ts (UpdateStudent i u) st = after (updateStudent i u st) st"
| "step ss ts (DeleteStudent i) st = after (deleteStudent i st) st"
| "step ss ts (SearchStudents q) st = st"
| "step ss ts (CreateTeacher d) st = after (createTeacher d st) st"
| "step ss ts (UpdateTeacher i u) st = after (updateTeacher i u st) st"
| "step ss ts (DeleteTeacher i) st = after (deleteTeacher i st) st"
| "step ss ts (SearchTeachers q) st = st"
| "step ss ts (ExportData now) st = st"
| "step ss ts (ImportData data) st =
     (case importData data st of Inl e \<Rightarrow> st | Inr st' \<Rightarrow> st')"
| "step ss ts ResetAllData st = resetAllData ss ts st"

fun run :: "student list \<Rightarrow> teacher list \<Rightarrow> operation list \<Rightarrow> store \<Rightarrow> store" where
  "run ss ts [] st = st"
| "run ss ts (x # xs) st = run ss ts xs (step ss ts x st)"

text \<open>Pairwise distinct ids in both collections.\<close>

definition unique_ids :: "store \<Rightarrow> bool" where
  "unique_ids st \<longleftrightarrow>
     distinct (map id' (students st)) \<and> distinct (map id' (teachers st))"

text \<open>An import whose arrays, where present, have pairwise distinct ids.\<close>

fun import_unique :: "operation \<Rightarrow> bool" where
  "import_unique (ImportData (Some d)) =
     ((case data_students d of None \<Rightarrow> True | Some xs \<Rightarrow> distinct (map id' xs)) \<and>
      (case data_teachers d of None \<Rightarrow> True | Some ys \<Rightarrow> distinct (map id' ys)))"
| "import_unique x = True"

section \<open>What the specification calls a match\<close>

text \<open>
  From the words of the specification, not from the code. Two code units are the
  same letter up to case when they are equal or form a pair of a capital and a small
  letter: \<^verbatim>\<open>A\<close> to \<^verbatim>\<open>Z\<close> with \<^verbatim>\<open>a\<close> to \<^verbatim>\<open>z\<close>, the capital letters 192 to 214 and
  216 to 222 of Latin-1 with the small letters 224 to 246 and 248 to 254, and the
  capital sigma with either small sigma. Two strings are equal up to case when they
  have the same length and the same letters up to case, position by position. A
  text contains a query case-insensitively as a substring when some contiguous part
  of the text equals the query up to case.
\<close>

definition case_pairs :: "(code_unit \<times> code_unit) list" where
  "case_pairs =
     map (\<lambda>(c, d). (Latin c, Latin d))
       (zip ''ABCDEFGHIJKLMNOPQRSTUVWXYZ'' ''abcdefghijklmnopqrstuvwxyz'') @
     map (\<lambda>n. (Latin (char_of n), Latin (char_of (n + 32))))
       ([192..<215] @ [216..<223] :: nat list) @
     [(Capital_sigma, Small_sigma), (Capital_sigma, Final_sigma)]"

definition same_letter :: "code_unit \<Rightarrow> code_unit \<Rightarrow> bool" where
  "same_letter u v \<longleftrightarrow> u = v \<or> (u, v) \<in> set case_pairs \<or> (v, u) \<in> set case_pairs"

definition equal_ignoring_case :: "jsstring \<Rightarrow> jsstring \<Rightarrow> bool" where
  "equal_ignoring_case a b \<longleftrightarrow> list_all2 same_letter a b"

definition contains_ignoring_case :: "jsstring \<Rightarrow> jsstring \<Rightarrow> bool" where
  "contains_ignoring_case text query \<longleftrightarrow>
     (\<exists>ps m ss. text = ps @ m @ ss \<and> equal_ignoring_case m query)"

text \<open>A string of Latin-1 code units only.\<close>

definition is_latin :: "code_unit \<Rightarrow> bool" where
  "is_latin u = (case u of Latin c \<Rightarrow> True | _ \<Rightarrow> False)"

definition latin_text :: "jsstring \<Rightarrow> bool" where
  "latin_text s \<longleftrightarrow> list_all is_latin s"

section \<open>Example data\<close>

text \<open>The records of the scenario in the specification, and a teacher beside them.\<close>

definition john :: student where
  "john = \<lparr> id' = latin1 ''1234500001'', name = latin1 ''John Doe'', email = latin1 ''john@x.edu'',
            password = latin1 ''Student@001'' \<rparr>"

definition ada :: teacher where
  "ada = \<lparr> id' = latin1 ''T100200301'', name = latin1 ''Ada King'', email = latin1 ''ada@x.edu'',
           password = latin1 ''Teacher@301'', specialization = [latin1 ''Mathematics''] \<rparr>"

definition example_store :: store where
  "example_store = \<lparr> students = [john], teachers = [ada] \<rparr>"

definition jane_data :: student_data where
  "jane_data = \<lparr> data_id = Some (latin1 ''1234500002''), data_name = Some (latin1 ''Jane Roe''),
                 data_email = Some (latin1 ''jane@x.edu''), data_password = None \<rparr>"

definition emmy_data :: teacher_data where
  "emmy_data = \<lparr> data_id = Some (latin1 ''T100200302''), data_name = Some (latin1 ''Emmy Noether''),
                 data_email = Some (latin1 ''emmy@x.edu''), data_password = None,
                 data_specialization = Some [latin1 ''Algebra''] \<rparr>"

text \<open>A student whose name ends in a capital sigma: \<^verbatim>\<open>A\<close> followed by U+03A3.\<close>

definition sigma_student :: student where
  "sigma_student = \<lparr> id' = latin1 ''1234500003'', name = [Latin CHR ''A'', Capital_sigma],
                     email = latin1 ''as@x.edu'', password = latin1 ''Student@003'' \<rparr>"

section \<open>The read operations on references\<close>

text \<open>
  Whether a caller can change a stored record through a returned one depends on
  which objects the two share. For the read operations the arrays and objects are
  therefore cells of a heap, and a value is a string or a reference to a cell.
  Allocation appends a cell: the new address is the length of the heap. A property
  assignment, a \<^verbatim>\<open>push\<close> or any other mutation of the object at address \<open>a\<close>
  replaces the cell at \<open>a\<close>.
\<close>

type_synonym addr = nat

datatype jsval = Str jsstring | Ref addr

datatype cell =
    Obj "(string \<times> jsval) list"
  | Arr "jsval list"

text \<open>The module bindings \<^verbatim>\<open>students\<close> and \<^verbatim>\<open>teachers\<close> refer to two arrays.\<close>

record memory =
  heap :: "cell list"
  students_ref :: addr
  teachers_ref :: addr

definition lookup :: "cell list \<Rightarrow> addr \<Rightarrow> cell option" where
  "lookup h a = (if a < length h then Some (h ! a) else None)"

text \<open>\<^verbatim>\<open>v.k\<close> for an object \<open>v\<close>; \<open>None\<close> is \<^verbatim>\<open>undefined\<close>.\<close>

definition get_prop :: "cell list \<Rightarrow> jsval \<Rightarrow> string \<Rightarrow> jsval option" where
  "get_prop h v k =
     (case v of
        Str s \<Rightarrow> None
      | Ref a \<Rightarrow> (case lookup h a of Some (Obj ps) \<Rightarrow> map_of ps k | _ \<Rightarrow> None))"

text \<open>
  \<^verbatim>\<open>{ ...v }\<close>: a new object with the properties of \<open>v\<close>. A property that holds a
  reference is copied as that reference. The result \<open>None\<close> of this and the
  following functions is an array element that is not an object, which the module
  never stores.
\<close>

definition spread_copy :: "jsval \<Rightarrow> cell list \<Rightarrow> (jsval \<times> cell list) option" where
  "spread_copy v h =
     (case v of
        Str s \<Rightarrow> None
      | Ref a \<Rightarrow>
          (case lookup h a of
             Some (Obj ps) \<Rightarrow> Some (Ref (length h), h @ [Obj ps])
           | _ \<Rightarrow> None))"

text \<open>The callbacks of \<^verbatim>\<open>xs.map(s => ({ ...s }))\<close>, one element after the other.\<close>

fun map_copy :: "jsval list \<Rightarrow> cell list \<Rightarrow> (jsval list \<times> cell list) option" where
  "map_copy [] h = Some ([], h)"
| "map_copy (v # vs) h =
     (case spread_copy v h of
        None \<Rightarrow> None
      | Some (r, h1) \<Rightarrow>
          (case map_copy vs h1 of
             None \<Rightarrow> None
           | Some (rs, h2) \<Rightarrow> Some (r # rs, h2)))"

text \<open>
  \<^verbatim>\<open>getStudents\<close> and \<^verbatim>\<open>getTeachers\<close> have the same body up to the array they
  read: \<^verbatim>\<open>xs.map(s => ({ ...s }))\<close>, which returns a new array of the new objects.
\<close>

definition list_copies :: "addr \<Rightarrow> memory \<Rightarrow> (jsval \<times> memory) option" where
  "list_copies root m =
     (case lookup (heap m) root of
        Some (Arr vs) \<Rightarrow>
          (case map_copy vs (heap m) of
             None \<Rightarrow> None
           | Some (rs, h1) \<Rightarrow> Some (Ref (length h1), m\<lparr>heap := h1 @ [Arr rs]\<rparr>))
      | _ \<Rightarrow> None)"

definition getStudents_ref :: "memory \<Rightarrow> (jsval \<times> memory) option" where
  "getStudents_ref m = list_copies (students_ref m) m"

definition getTeachers_ref :: "memory \<Rightarrow> (jsval \<times> memory) option" where
  "getTeachers_ref m = list_copies (teachers_ref m) m"

text \<open>
  \<^verbatim>\<open>getStudentById\<close> and \<^verbatim>\<open>getTeacherById\<close>:
  \<^verbatim>\<open>const s = xs.find(s => s.id === id); return s ? { ...s } : null\<close>. The inner
  \<open>None\<close> of the result is \<^verbatim>\<open>null\<close>.
\<close>

definition find_copy :: "addr \<Rightarrow> jsstring \<Rightarrow> memory \<Rightarrow> (jsval option \<times> memory) option" where
  "find_copy root i m =
     (case lookup (heap m) root of
        Some (Arr vs) \<Rightarrow>
          (case List.find (\<lambda>v. get_prop (heap m) v ''id'' = Some (Str i)) vs of
             None \<Rightarrow> Some (None, m)
           | Some v \<Rightarrow>
               (case spread_copy v (heap m) of
                  None \<Rightarrow> None
                | Some (r, h1) \<Rightarrow> Some (Some r, m\<lparr>heap := h1\<rparr>)))
      | _ \<Rightarrow> None)"

definition getStudentById_ref :: "jsstring \<Rightarrow> memory \<Rightarrow> (jsval option \<times> memory) option" where
  "getStudentById_ref i m = find_copy (students_ref m) i m"

definition getTeacherById_ref :: "jsstring \<Rightarrow> memory \<Rightarrow> (jsval option \<times> memory) option" where
  "getTeacherById_ref i m = find_copy (teachers_ref m) i m"

text \<open>
  \<^verbatim>\<open>searchStudents\<close> and \<^verbatim>\<open>searchTeachers\<close>:
  \<^verbatim>\<open>xs.filter(s => s.name.toLowerCase().includes(q) || s.email.toLowerCase().includes(q))\<close>.
  The new array holds the elements of \<open>xs\<close> that pass the test, as they are. A
  name or email that is not a string makes the callback throw (\<open>None\<close>); the
  email is read only when the name does not match.
\<close>

fun filter_match :: "cell list \<Rightarrow> jsstring \<Rightarrow> jsval list \<Rightarrow> jsval list option" where
  "filter_match h q [] = Some []"
| "filter_match h q (v # vs) =
     (case get_prop h v ''name'' of
        Some (Str n) \<Rightarrow>
          if includes_str (toLowerCase n) q
          then map_option (\<lambda>rs. v # rs) (filter_match h q vs)
          else (case get_prop h v ''email'' of
                  Some (Str e) \<Rightarrow>
                    if includes_str (toLowerCase e) q
                    then map_option (\<lambda>rs. v # rs) (filter_match h q vs)
                    else filter_match h q vs
                | _ \<Rightarrow> None)
      | _ \<Rightarrow> None)"

definition search_refs :: "addr \<Rightarrow> jsstring \<Rightarrow> memory \<Rightarrow> (jsval \<times> memory) option" where
  "search_refs root query m =
     (let q = toLowerCase query in
      case lookup (heap m) root of
        Some (Arr vs) \<Rightarrow>
          (case filter_match (heap m) q vs of
             None \<Rightarrow> None
           | Some rs \<Rightarrow> Some (Ref (length (heap m)), m\<lparr>heap := heap m @ [Arr rs]\<rparr>))
      | _ \<Rightarrow> None)"

definition searchStudents_ref :: "jsstring \<Rightarrow> memory \<Rightarrow> (jsval \<times> memory) option" where
  "searchStudents_ref query m = search_refs (students_ref m) query m"

definition searchTeachers_ref :: "jsstring \<Rightarrow> memory \<Rightarrow> (jsval \<times> memory) option" where
  "searchTeachers_ref query m = search_refs (teachers_ref m) query m"

subsection \<open>The records that a memory holds\<close>

text \<open>
  The value of the object, array or collection that a reference leads to; \<open>None\<close>
  when the cells do not have the shape of the data model.
\<close>

definition student_at :: "cell list \<Rightarrow> jsval \<Rightarrow> student option" where
  "student_at h v =
     (case (get_prop h v ''id'', get_prop h v ''name'', get_prop h v ''email'', get_prop h v ''password'') of
        (Some (Str i), Some (Str n), Some (Str e), Some (Str p)) \<Rightarrow>
          Some \<lparr> id' = i, name = n, email = e, password = p \<rparr>
      | _ \<Rightarrow> None)"

definition string_of :: "jsval \<Rightarrow> jsstring option" where
  "string_of v = (case v of Str s \<Rightarrow> Some s | Ref a \<Rightarrow> None)"

definition strings_at :: "cell list \<Rightarrow> jsval \<Rightarrow> jsstring list option" where
  "strings_at h v =
     (case v of
        Str s \<Rightarrow> None
      | Ref a \<Rightarrow> (case lookup h a of Some (Arr vs) \<Rightarrow> those (map string_of vs) | _ \<Rightarrow> None))"

definition teacher_at :: "cell list \<Rightarrow> jsval \<Rightarrow> teacher option" where
  "teacher_at h v =
     (case (student_at h v, get_prop h v ''specialization'') of
        (Some s, Some sv) \<Rightarrow>
          (case strings_at h sv of
             Some xs \<Rightarrow> Some \<lparr> id' = id' s, name = name s, email = email s,
                               password = password s, specialization = xs \<rparr>
           | None \<Rightarrow> None)
      | _ \<Rightarrow> None)"

definition records_at :: "(cell list \<Rightarrow> jsval \<Rightarrow> 'a option) \<Rightarrow> cell list \<Rightarrow> jsval \<Rightarrow> 'a list option" where
  "records_at f h v =
     (case v of
        Str s \<Rightarrow> None
      | Ref a \<Rightarrow> (case lookup h a of Some (Arr vs) \<Rightarrow> those (map (f h) vs) | _ \<Rightarrow> None))"

definition store_of :: "memory \<Rightarrow> store option" where
  "store_of m =
     (case (records_at student_at (heap m) (Ref (students_ref m)),
            records_at teacher_at (heap m) (Ref (teachers_ref m))) of
        (Some ss, Some ts) \<Rightarrow> Some \<lparr> students = ss, teachers = ts \<rparr>
      | _ \<Rightarrow> None)"

text \<open>
  The objects that a returned value consists of: a returned record is its own
  cell, a returned list is its own cell and the cells of its elements.
\<close>

definition addr_of :: "jsval \<Rightarrow> addr list" where
  "addr_of v = (case v of Str s \<Rightarrow> [] | Ref a \<Rightarrow> [a])"

definition returned_cells :: "cell list \<Rightarrow> jsval \<Rightarrow> addr list" where
  "returned_cells h v =
     (case v of
        Str s \<Rightarrow> []
      | Ref a \<Rightarrow>
          a # (case lookup h a of Some (Arr vs) \<Rightarrow> concat (map addr_of vs) | _ \<Rightarrow> []))"

text \<open>The mutation of the object at \<open>a\<close> into \<open>c\<close>.\<close>

definition mutate :: "addr \<Rightarrow> cell \<Rightarrow> memory \<Rightarrow> memory" where
  "mutate a c m = m\<lparr>heap := (heap m)[a := c]\<rparr>"

text \<open>The example store as a memory: cell 0 is the specialization array of Ada.\<close>

definition ada_cell :: cell where
  "ada_cell =
     Obj [(''id'', Str (latin1 ''T100200301'')), (''name'', Str (latin1 ''Ada King'')),
          (''email'', Str (latin1 ''ada@x.edu'')), (''password'', Str (latin1 ''Teacher@301'')),
          (''specialization'', Ref 0)]"

definition john_cell :: cell where
  "john_cell =
     Obj [(''id'', Str (latin1 ''1234500001'')), (''name'', Str (latin1 ''John Doe'')),
          (''email'', Str (latin1 ''john@x.edu'')), (''password'', Str (latin1 ''Student@001''))]"

definition example_memory :: memory where
  "example_memory =
     \<lparr> heap = [Arr [Str (latin1 ''Mathematics'')], ada_cell, Arr [Ref 1], john_cell, Arr [Ref 3]],
       students_ref = 4,
       teachers_ref = 2 \<rparr>"

section \<open>Lemmas on the primitives\<close>

lemma findIndex_None_iff: "findIndex p xs = None \<longleftrightarrow> (\<forall>x \<in> set xs. \<not> p x)"
  by (induction xs) auto

lemma findIndex_Some:
  "findIndex p xs = Some k \<Longrightarrow> k < length xs \<and> p (xs ! k) \<and> (\<forall>j < k. \<not> p (xs ! j))"
proof (induction xs arbitrary: k)
  case Nil
  then show ?case by simp
next
  case (Cons x xs)
  show ?case
  proof (cases "p x")
    case True
    with Cons.prems show ?thesis by simp
  next
    case False
    with Cons.prems obtain k' where k': "findIndex p xs = Some k'" "k = Suc k'"
      by auto
    from Cons.IH [OF k'(1)] False k'(2) show ?thesis
      by (auto simp: nth_Cons split: nat.splits)
  qed
qed

lemma findIndex_present:
  "\<exists>x \<in> set xs. p x \<Longrightarrow> \<exists>k. findIndex p xs = Some k"
  using findIndex_None_iff [of p xs] by (cases "findIndex p xs") auto

lemma find_append_fresh:
  "\<forall>x \<in> set xs. \<not> p x \<Longrightarrow> p y \<Longrightarrow> List.find p (xs @ [y]) = Some y"
  by (induction xs) auto

lemma slice_last3_suffix: "suffix (slice_last3 s) s"
  unfolding slice_last3_def by (rule suffix_drop)

lemma slice_last3_length: "length (slice_last3 s) = min 3 (length s)"
  unfolding slice_last3_def by auto

lemma or_else_nonempty: "d \<noteq> [] \<Longrightarrow> or_else v d \<noteq> []"
  by (auto simp: or_else_def split: option.splits)

section \<open>What a successful create returns and stores\<close>

lemma createStudent_ok:
  assumes "data_id d = Some i" "data_name d = Some n" "data_email d = Some e"
    and "i \<noteq> []" "n \<noteq> []" "e \<noteq> []" and "i \<notin> id' ` set (students st)"
  shows "createStudent d st =
     Inr (\<lparr> id' = i, name = n, email = e,
            password = or_else (data_password d) (latin1 ''Student@'' @ slice_last3 i) \<rparr>,
          st\<lparr>students := students st @
            [\<lparr> id' = i, name = n, email = e,
               password = or_else (data_password d) (latin1 ''Student@'' @ slice_last3 i) \<rparr>]\<rparr>)"
proof -
  have "List.find (\<lambda>s. id' s = i) (students st) = None"
    using assms(7) by (auto simp: find_None_iff)
  then show ?thesis
    using assms(1-6) by (simp add: createStudent_def truthy_def saveStudents_def Let_def)
qed

lemma createTeacher_ok:
  assumes "data_id d = Some i" "data_name d = Some n" "data_email d = Some e"
    and "i \<noteq> []" "n \<noteq> []" "e \<noteq> []" and "i \<notin> id' ` set (teachers st)"
  shows "createTeacher d st =
     Inr (\<lparr> id' = i, name = n, email = e,
            password = or_else (data_password d) (latin1 ''Teacher@'' @ slice_last3 i),
            specialization = (case data_specialization d of None \<Rightarrow> [] | Some xs \<Rightarrow> xs) \<rparr>,
          st\<lparr>teachers := teachers st @
            [\<lparr> id' = i, name = n, email = e,
               password = or_else (data_password d) (latin1 ''Teacher@'' @ slice_last3 i),
               specialization = (case data_specialization d of None \<Rightarrow> [] | Some xs \<Rightarrow> xs) \<rparr>]\<rparr>)"
proof -
  have "List.find (\<lambda>s. id' s = i) (teachers st) = None"
    using assms(7) by (auto simp: find_None_iff)
  then show ?thesis
    using assms(1-6) by (simp add: createTeacher_def truthy_def saveTeachers_def Let_def)
qed

section \<open>Export followed by import\<close>

text \<open>
  C3. For every state of the two collections, importing what \<^verbatim>\<open>exportData\<close>
  returns succeeds and leaves both collections as they were: the same records with
  the same field values in the same order.
\<close>

theorem importData_exportData_roundtrip:
  "importData (Some (exportData now st)) st = Inr st"
  by (simp add: importData_def exportData_def saveStudents_def saveTeachers_def)

section \<open>Create with an id that is taken\<close>

text \<open>
  C4, as stated, at a concrete input: the id of the input is the id of a stored
  student and the input has no name. The call fails with the validation error, not
  with the duplicate-key error, because the check of the required properties comes
  first.
\<close>

theorem createStudent_duplicate_without_name:
  "getStudentById (latin1 ''1234500001'') example_store = Some john \<and>
   createStudent \<lparr> data_id = Some (latin1 ''1234500001''), data_name = None,
       data_email = Some (latin1 ''john@x.edu''), data_password = None \<rparr> example_store =
     Inl (ValidationError (latin1 ''Student must have id, name, and email''))"
  by (simp add: createStudent_def truthy_def getStudentById_def example_store_def john_def)

text \<open>
  C4, amended. For every input whose id is the id of a stored record, create fails
  and the collection is as before. The failure is the duplicate-key error when id,
  name and email of the input are all non-empty, and the validation error when one
  of them is missing or empty. The same holds for teachers.
\<close>

theorem create_duplicate_id_fails:
  "(data_id d = Some i \<and> i \<in> id' ` set (students st) \<longrightarrow>
      createStudent d st =
        Inl (if i \<noteq> [] \<and> truthy (data_name d) \<and> truthy (data_email d)
             then DuplicateKeyError (latin1 ''Student with ID '' @ i @ latin1 '' already exists'')
             else ValidationError (latin1 ''Student must have id, name, and email'')) \<and>
      after (createStudent d st) st = st) \<and>
   (data_id dt = Some j \<and> j \<in> id' ` set (teachers st) \<longrightarrow>
      createTeacher dt st =
        Inl (if j \<noteq> [] \<and> truthy (data_name dt) \<and> truthy (data_email dt)
             then DuplicateKeyError (latin1 ''Teacher with ID '' @ j @ latin1 '' already exists'')
             else ValidationError (latin1 ''Teacher must have id, name, and email'')) \<and>
      after (createTeacher dt st) st = st)"
proof (intro conjI impI)
  assume h: "data_id d = Some i \<and> i \<in> id' ` set (students st)"
  then have f: "List.find (\<lambda>s. id' s = i) (students st) \<noteq> None"
    by (auto simp: find_None_iff)
  show r: "createStudent d st =
        Inl (if i \<noteq> [] \<and> truthy (data_name d) \<and> truthy (data_email d)
             then DuplicateKeyError (latin1 ''Student with ID '' @ i @ latin1 '' already exists'')
             else ValidationError (latin1 ''Student must have id, name, and email''))"
    using h f by (simp add: createStudent_def truthy_def Let_def)
  show "after (createStudent d st) st = st"
    by (simp add: r after_def)
next
  assume h: "data_id dt = Some j \<and> j \<in> id' ` set (teachers st)"
  then have f: "List.find (\<lambda>s. id' s = j) (teachers st) \<noteq> None"
    by (auto simp: find_None_iff)
  show r: "createTeacher dt st =
        Inl (if j \<noteq> [] \<and> truthy (data_name dt) \<and> truthy (data_email dt)
             then DuplicateKeyError (latin1 ''Teacher with ID '' @ j @ latin1 '' already exists'')
             else ValidationError (latin1 ''Teacher must have id, name, and email''))"
    using h f by (simp add: createTeacher_def truthy_def Let_def)
  show "after (createTeacher dt st) st = st"
    by (simp add: r after_def)
qed

theorem create_duplicate_id_fails_witness:
  "createStudent (jane_data\<lparr>data_id := Some (latin1 ''1234500001'')\<rparr>) example_store =
     Inl (DuplicateKeyError (latin1 ''Student with ID 1234500001 already exists'')) \<and>
   after (createStudent (jane_data\<lparr>data_id := Some (latin1 ''1234500001'')\<rparr>) example_store)
     example_store = example_store \<and>
   createTeacher (emmy_data\<lparr>data_id := Some (latin1 ''T100200301'')\<rparr>) example_store =
     Inl (DuplicateKeyError (latin1 ''Teacher with ID T100200301 already exists'')) \<and>
   after (createTeacher (emmy_data\<lparr>data_id := Some (latin1 ''T100200301'')\<rparr>) example_store)
     example_store = example_store"
  using create_duplicate_id_fails [of "jane_data\<lparr>data_id := Some (latin1 ''1234500001'')\<rparr>"
      "latin1 ''1234500001''" example_store "emmy_data\<lparr>data_id := Some (latin1 ''T100200301'')\<rparr>"
      "latin1 ''T100200301''"]
  by (simp add: jane_data_def emmy_data_def example_store_def john_def ada_def truthy_def after_def)

section \<open>Create followed by a lookup\<close>

text \<open>
  C5. For every input with non-empty id, name and email whose id is not in the
  collection, create succeeds, and a lookup of that id in the state after the call
  returns a record with the id, name and email of the input and a non-empty
  password, whether the input had a password or not. The same holds for teachers.
\<close>

theorem create_then_getById:
  "(data_id d = Some i \<and> data_name d = Some n \<and> data_email d = Some e \<and>
    i \<noteq> [] \<and> n \<noteq> [] \<and> e \<noteq> [] \<and> i \<notin> id' ` set (students st) \<longrightarrow>
      (\<exists>r st'. createStudent d st = Inr (r, st') \<and>
         (\<exists>r'. getStudentById i st' = Some r' \<and>
            id' r' = i \<and> name r' = n \<and> email r' = e \<and> password r' \<noteq> []))) \<and>
   (data_id dt = Some j \<and> data_name dt = Some m \<and> data_email dt = Some f \<and>
    j \<noteq> [] \<and> m \<noteq> [] \<and> f \<noteq> [] \<and> j \<notin> id' ` set (teachers st) \<longrightarrow>
      (\<exists>r st'. createTeacher dt st = Inr (r, st') \<and>
         (\<exists>r'. getTeacherById j st' = Some r' \<and>
            id' r' = j \<and> name r' = m \<and> email r' = f \<and> password r' \<noteq> [])))"
proof (intro conjI impI)
  assume h: "data_id d = Some i \<and> data_name d = Some n \<and> data_email d = Some e \<and>
    i \<noteq> [] \<and> n \<noteq> [] \<and> e \<noteq> [] \<and> i \<notin> id' ` set (students st)"
  let ?r = "\<lparr> id' = i, name = n, email = e,
            password = or_else (data_password d) (latin1 ''Student@'' @ slice_last3 i) \<rparr>"
  have c: "createStudent d st = Inr (?r, st\<lparr>students := students st @ [?r]\<rparr>)"
    using h by (intro createStudent_ok) simp_all
  have "\<forall>x \<in> set (students st). \<not> id' x = i" using h by auto
  then have g: "getStudentById i (st\<lparr>students := students st @ [?r]\<rparr>) = Some ?r"
    by (simp add: getStudentById_def find_append_fresh)
  have "password ?r \<noteq> []" by (simp add: or_else_nonempty)
  with c g show "\<exists>r st'. createStudent d st = Inr (r, st') \<and>
         (\<exists>r'. getStudentById i st' = Some r' \<and>
            id' r' = i \<and> name r' = n \<and> email r' = e \<and> password r' \<noteq> [])"
    by simp
next
  assume h: "data_id dt = Some j \<and> data_name dt = Some m \<and> data_email dt = Some f \<and>
    j \<noteq> [] \<and> m \<noteq> [] \<and> f \<noteq> [] \<and> j \<notin> id' ` set (teachers st)"
  let ?r = "\<lparr> id' = j, name = m, email = f,
            password = or_else (data_password dt) (latin1 ''Teacher@'' @ slice_last3 j),
            specialization = (case data_specialization dt of None \<Rightarrow> [] | Some xs \<Rightarrow> xs) \<rparr>"
  have c: "createTeacher dt st = Inr (?r, st\<lparr>teachers := teachers st @ [?r]\<rparr>)"
    using h by (intro createTeacher_ok) simp_all
  have "\<forall>x \<in> set (teachers st). \<not> id' x = j" using h by auto
  then have g: "getTeacherById j (st\<lparr>teachers := teachers st @ [?r]\<rparr>) = Some ?r"
    by (simp add: getTeacherById_def find_append_fresh)
  have "password ?r \<noteq> []" by (simp add: or_else_nonempty)
  with c g show "\<exists>r st'. createTeacher dt st = Inr (r, st') \<and>
         (\<exists>r'. getTeacherById j st' = Some r' \<and>
            id' r' = j \<and> name r' = m \<and> email r' = f \<and> password r' \<noteq> [])"
    by simp
qed

theorem create_then_getById_witness:
  "(\<exists>r st'. createStudent jane_data example_store = Inr (r, st') \<and>
      (\<exists>r'. getStudentById (latin1 ''1234500002'') st' = Some r' \<and> id' r' = latin1 ''1234500002'' \<and>
         name r' = latin1 ''Jane Roe'' \<and> email r' = latin1 ''jane@x.edu'' \<and> password r' \<noteq> [])) \<and>
   (\<exists>r st'. createTeacher emmy_data example_store = Inr (r, st') \<and>
      (\<exists>r'. getTeacherById (latin1 ''T100200302'') st' = Some r' \<and> id' r' = latin1 ''T100200302'' \<and>
         name r' = latin1 ''Emmy Noether'' \<and> email r' = latin1 ''emmy@x.edu'' \<and> password r' \<noteq> []))"
  using create_then_getById [of jane_data "latin1 ''1234500002''" "latin1 ''Jane Roe''" "latin1 ''jane@x.edu''"
      example_store emmy_data "latin1 ''T100200302''" "latin1 ''Emmy Noether''" "latin1 ''emmy@x.edu''"]
  by (simp add: jane_data_def emmy_data_def example_store_def john_def ada_def)

section \<open>The default password\<close>

text \<open>
  C9. When create is called without a password, for an input with non-empty id,
  name and email and a fresh id, the record appended to the collection has the
  password \<^verbatim>\<open>Student@\<close> (for teachers \<^verbatim>\<open>Teacher@\<close>) followed by the last three
  characters of the id. The characters appended are the suffix of the id of length
  three, the whole id when it is shorter; for the id \<^verbatim>\<open>1234500002\<close> they are \<^verbatim>\<open>002\<close>.
\<close>

theorem create_default_password:
  "(data_id d = Some i \<and> data_name d = Some n \<and> data_email d = Some e \<and>
    i \<noteq> [] \<and> n \<noteq> [] \<and> e \<noteq> [] \<and> data_password d = None \<and>
    i \<notin> id' ` set (students st) \<longrightarrow>
      (\<exists>r st'. createStudent d st = Inr (r, st') \<and> students st' = students st @ [r] \<and>
         password r = latin1 ''Student@'' @ slice_last3 i)) \<and>
   (data_id dt = Some j \<and> data_name dt = Some m \<and> data_email dt = Some f \<and>
    j \<noteq> [] \<and> m \<noteq> [] \<and> f \<noteq> [] \<and> data_password dt = None \<and>
    j \<notin> id' ` set (teachers st) \<longrightarrow>
      (\<exists>r st'. createTeacher dt st = Inr (r, st') \<and> teachers st' = teachers st @ [r] \<and>
         password r = latin1 ''Teacher@'' @ slice_last3 j)) \<and>
   suffix (slice_last3 i) i \<and> length (slice_last3 i) = min 3 (length i) \<and>
   slice_last3 (latin1 ''1234500002'') = latin1 ''002''"
proof (intro conjI impI)
  assume h: "data_id d = Some i \<and> data_name d = Some n \<and> data_email d = Some e \<and>
    i \<noteq> [] \<and> n \<noteq> [] \<and> e \<noteq> [] \<and> data_password d = None \<and>
    i \<notin> id' ` set (students st)"
  then have "createStudent d st =
     Inr (\<lparr> id' = i, name = n, email = e,
            password = or_else (data_password d) (latin1 ''Student@'' @ slice_last3 i) \<rparr>,
          st\<lparr>students := students st @
            [\<lparr> id' = i, name = n, email = e,
               password = or_else (data_password d) (latin1 ''Student@'' @ slice_last3 i) \<rparr>]\<rparr>)"
    by (intro createStudent_ok) simp_all
  with h show "\<exists>r st'. createStudent d st = Inr (r, st') \<and>
      students st' = students st @ [r] \<and> password r = latin1 ''Student@'' @ slice_last3 i"
    by (simp add: or_else_def)
next
  assume h: "data_id dt = Some j \<and> data_name dt = Some m \<and> data_email dt = Some f \<and>
    j \<noteq> [] \<and> m \<noteq> [] \<and> f \<noteq> [] \<and> data_password dt = None \<and>
    j \<notin> id' ` set (teachers st)"
  then have "createTeacher dt st =
     Inr (\<lparr> id' = j, name = m, email = f,
            password = or_else (data_password dt) (latin1 ''Teacher@'' @ slice_last3 j),
            specialization = (case data_specialization dt of None \<Rightarrow> [] | Some xs \<Rightarrow> xs) \<rparr>,
          st\<lparr>teachers := teachers st @
            [\<lparr> id' = j, name = m, email = f,
               password = or_else (data_password dt) (latin1 ''Teacher@'' @ slice_last3 j),
               specialization = (case data_specialization dt of None \<Rightarrow> [] | Some xs \<Rightarrow> xs) \<rparr>]\<rparr>)"
    by (intro createTeacher_ok) simp_all
  with h show "\<exists>r st'. createTeacher dt st = Inr (r, st') \<and>
      teachers st' = teachers st @ [r] \<and> password r = latin1 ''Teacher@'' @ slice_last3 j"
    by (simp add: or_else_def)
next
  show "suffix (slice_last3 i) i" by (rule slice_last3_suffix)
  show "length (slice_last3 i) = min 3 (length i)" by (rule slice_last3_length)
  show "slice_last3 (latin1 ''1234500002'') = latin1 ''002''" by (simp add: slice_last3_def)
qed

theorem create_default_password_witness:
  "(\<exists>r st'. createStudent jane_data example_store = Inr (r, st') \<and>
      students st' = [john, r] \<and> password r = latin1 ''Student@002'') \<and>
   (\<exists>r st'. createTeacher (emmy_data\<lparr>data_id := Some (latin1 ''T7'')\<rparr>) example_store = Inr (r, st') \<and>
      teachers st' = [ada, r] \<and> password r = latin1 ''Teacher@T7'')"
  using create_default_password [of jane_data "latin1 ''1234500002''" "latin1 ''Jane Roe''" "latin1 ''jane@x.edu''"
      example_store "emmy_data\<lparr>data_id := Some (latin1 ''T7'')\<rparr>" "latin1 ''T7''" "latin1 ''Emmy Noether''"
      "latin1 ''emmy@x.edu''"]
  by (auto simp add: jane_data_def emmy_data_def example_store_def john_def ada_def
      slice_last3_def)

text \<open>
  C10. An input that supplies the empty string as its password (with non-empty id,
  name and email and a fresh id) gets the synthesized default password stored, not
  the empty string: the default replaces every falsy password.
\<close>

theorem create_empty_password_gets_default:
  "(data_id d = Some i \<and> data_name d = Some n \<and> data_email d = Some e \<and>
    i \<noteq> [] \<and> n \<noteq> [] \<and> e \<noteq> [] \<and> data_password d = Some [] \<and>
    i \<notin> id' ` set (students st) \<longrightarrow>
      (\<exists>r st'. createStudent d st = Inr (r, st') \<and> students st' = students st @ [r] \<and>
         password r = latin1 ''Student@'' @ slice_last3 i \<and> password r \<noteq> [])) \<and>
   (data_id dt = Some j \<and> data_name dt = Some m \<and> data_email dt = Some f \<and>
    j \<noteq> [] \<and> m \<noteq> [] \<and> f \<noteq> [] \<and> data_password dt = Some [] \<and>
    j \<notin> id' ` set (teachers st) \<longrightarrow>
      (\<exists>r st'. createTeacher dt st = Inr (r, st') \<and> teachers st' = teachers st @ [r] \<and>
         password r = latin1 ''Teacher@'' @ slice_last3 j \<and> password r \<noteq> []))"
proof (intro conjI impI)
  assume h: "data_id d = Some i \<and> data_name d = Some n \<and> data_email d = Some e \<and>
    i \<noteq> [] \<and> n \<noteq> [] \<and> e \<noteq> [] \<and> data_password d = Some [] \<and>
    i \<notin> id' ` set (students st)"
  then have "createStudent d st =
     Inr (\<lparr> id' = i, name = n, email = e,
            password = or_else (data_password d) (latin1 ''Student@'' @ slice_last3 i) \<rparr>,
          st\<lparr>students := students st @
            [\<lparr> id' = i, name = n, email = e,
               password = or_else (data_password d) (latin1 ''Student@'' @ slice_last3 i) \<rparr>]\<rparr>)"
    by (intro createStudent_ok) simp_all
  with h show "\<exists>r st'. createStudent d st = Inr (r, st') \<and>
      students st' = students st @ [r] \<and> password r = latin1 ''Student@'' @ slice_last3 i \<and>
      password r \<noteq> []"
    by (simp add: or_else_def)
next
  assume h: "data_id dt = Some j \<and> data_name dt = Some m \<and> data_email dt = Some f \<and>
    j \<noteq> [] \<and> m \<noteq> [] \<and> f \<noteq> [] \<and> data_password dt = Some [] \<and>
    j \<notin> id' ` set (teachers st)"
  then have "createTeacher dt st =
     Inr (\<lparr> id' = j, name = m, email = f,
            password = or_else (data_password dt) (latin1 ''Teacher@'' @ slice_last3 j),
            specialization = (case data_specialization dt of None \<Rightarrow> [] | Some xs \<Rightarrow> xs) \<rparr>,
          st\<lparr>teachers := teachers st @
            [\<lparr> id' = j, name = m, email = f,
               password = or_else (data_password dt) (latin1 ''Teacher@'' @ slice_last3 j),
               specialization = (case data_specialization dt of None \<Rightarrow> [] | Some xs \<Rightarrow> xs) \<rparr>]\<rparr>)"
    by (intro createTeacher_ok) simp_all
  with h show "\<exists>r st'. createTeacher dt st = Inr (r, st') \<and>
      teachers st' = teachers st @ [r] \<and> password r = latin1 ''Teacher@'' @ slice_last3 j \<and>
      password r \<noteq> []"
    by (simp add: or_else_def)
qed

theorem create_empty_password_gets_default_witness:
  "(\<exists>r st'. createStudent (jane_data\<lparr>data_password := Some []\<rparr>) example_store = Inr (r, st') \<and>
      students st' = [john, r] \<and> password r = latin1 ''Student@002'') \<and>
   (\<exists>r st'. createTeacher (emmy_data\<lparr>data_password := Some []\<rparr>) example_store = Inr (r, st') \<and>
      teachers st' = [ada, r] \<and> password r = latin1 ''Teacher@302'')"
  using create_empty_password_gets_default [of "jane_data\<lparr>data_password := Some []\<rparr>"
      "latin1 ''1234500002''" "latin1 ''Jane Roe''" "latin1 ''jane@x.edu''"
      example_store "emmy_data\<lparr>data_password := Some []\<rparr>" "latin1 ''T100200302''" "latin1 ''Emmy Noether''"
      "latin1 ''emmy@x.edu''"]
  by (auto simp add: jane_data_def emmy_data_def example_store_def john_def ada_def
      slice_last3_def)

section \<open>Search\<close>

lemma includes_empty: "includes_str s []"
  by (simp add: includes_str_def)

lemma toLowerCase_Nil: "toLowerCase [] = []"
  by (simp add: toLowerCase_def)

text \<open>
  Two Latin-1 code units have the same lower case exactly when they are the same
  letter up to case.
\<close>

lemma of_char_toLowerLatin1:
  "(of_char (toLowerLatin1 c) :: nat) =
     (if capital_latin1 c then of_char c + 32 else of_char c)"
  by (auto simp: toLowerLatin1_def capital_latin1_def Let_def)

lemma ascii_pairs:
  "map (\<lambda>(c, d). (Latin c, Latin d))
     (zip ''ABCDEFGHIJKLMNOPQRSTUVWXYZ'' ''abcdefghijklmnopqrstuvwxyz'') =
   map (\<lambda>n. (Latin (char_of n), Latin (char_of (n + 32)))) ([65..<91] :: nat list)"
  by code_simp

lemma set_case_pairs:
  "set case_pairs =
     (\<lambda>n::nat. (Latin (char_of n), Latin (char_of (n + 32)))) `
       ({65..<91} \<union> ({192..<215} \<union> {216..<223})) \<union>
     {(Capital_sigma, Small_sigma), (Capital_sigma, Final_sigma)}"
  unfolding case_pairs_def ascii_pairs
  by (simp only: set_append set_map set_upt list.set image_Un Un_assoc)

lemma latin_pair_iff:
  "(Latin c, Latin d) \<in> set case_pairs \<longleftrightarrow>
     capital_latin1 c \<and> (of_char d :: nat) = of_char c + 32"
proof
  assume "(Latin c, Latin d) \<in> set case_pairs"
  then have "(Latin c, Latin d) \<in>
      (\<lambda>n::nat. (Latin (char_of n), Latin (char_of (n + 32)))) `
        ({65..<91} \<union> ({192..<215} \<union> {216..<223}))"
    unfolding set_case_pairs by simp
  then obtain n :: nat where m: "n \<in> {65..<91} \<union> ({192..<215} \<union> {216..<223})"
    and e: "(Latin c, Latin d) = (Latin (char_of n), Latin (char_of (n + 32)))"
    by (rule imageE)
  from e have c: "c = char_of n" and d: "d = char_of (n + 32)" by simp_all
  from m have n: "(65 \<le> n \<and> n < 91) \<or> (192 \<le> n \<and> n < 215) \<or> (216 \<le> n \<and> n < 223)"
    by auto
  from n have "n mod 256 = n" "(n + 32) mod 256 = n + 32" by auto
  with c d n show "capital_latin1 c \<and> (of_char d :: nat) = of_char c + 32"
    by (auto simp: capital_latin1_def Let_def)
next
  assume a: "capital_latin1 c \<and> (of_char d :: nat) = of_char c + 32"
  let ?n = "of_char c :: nat"
  from a have "?n \<in> {65..<91} \<union> ({192..<215} \<union> {216..<223})"
    by (auto simp: capital_latin1_def Let_def)
  moreover have "c = char_of ?n" by simp
  moreover from a have "d = char_of (?n + 32)"
    by (metis char_of_char)
  ultimately have "(Latin c, Latin d) \<in>
      (\<lambda>n::nat. (Latin (char_of n), Latin (char_of (n + 32)))) `
        ({65..<91} \<union> ({192..<215} \<union> {216..<223}))"
    by (intro image_eqI [where x = ?n]) simp_all
  then show "(Latin c, Latin d) \<in> set case_pairs"
    unfolding set_case_pairs by (rule UnI1)
qed

lemma toLowerLatin1_eq_iff:
  "toLowerLatin1 c = toLowerLatin1 d \<longleftrightarrow> same_letter (Latin c) (Latin d)"
proof -
  have "toLowerLatin1 c = toLowerLatin1 d \<longleftrightarrow>
      (of_char (toLowerLatin1 c) :: nat) = of_char (toLowerLatin1 d)"
    by simp
  also have "\<dots> \<longleftrightarrow> c = d \<or> (capital_latin1 c \<and> (of_char d :: nat) = of_char c + 32) \<or>
      (capital_latin1 d \<and> (of_char c :: nat) = of_char d + 32)"
    unfolding of_char_toLowerLatin1 of_char_eq_iff [symmetric, where ?'a = nat, of c d]
    by (auto simp: capital_latin1_def Let_def)
  finally show ?thesis
    by (simp add: same_letter_def latin_pair_iff)
qed

text \<open>
  On a string of Latin-1 code units \<^verbatim>\<open>toLowerCase\<close> works code unit by code unit,
  and there the test of the source, lower-casing both sides and looking for a
  substring, is the match of the specification.
\<close>

lemma lower_from_latin:
  "latin_text s \<Longrightarrow> lower_from prev s = map (lower_unit [] []) s"
proof (induction s arbitrary: prev)
  case Nil
  then show ?case by simp
next
  case (Cons u s)
  from Cons.prems obtain c where "u = Latin c" and "latin_text s"
    by (cases u) (auto simp: latin_text_def is_latin_def)
  with Cons.IH show ?case by (simp add: lower_unit_def)
qed

lemma latin_text_append:
  "latin_text (a @ b) \<longleftrightarrow> latin_text a \<and> latin_text b"
  by (simp add: latin_text_def)

lemma lower_latin_eq_iff:
  "latin_text m \<Longrightarrow> latin_text q \<Longrightarrow>
   map (lower_unit [] []) m = map (lower_unit [] []) q \<longleftrightarrow> equal_ignoring_case m q"
proof (induction m arbitrary: q)
  case Nil
  then show ?case by (auto simp: equal_ignoring_case_def)
next
  case (Cons u m)
  show ?case
  proof (cases q)
    case Nil
    then show ?thesis by (simp add: equal_ignoring_case_def)
  next
    case (Cons v q')
    from Cons.prems(1) obtain c where u: "u = Latin c" and m: "latin_text m"
      by (cases u) (auto simp: latin_text_def is_latin_def)
    from Cons.prems(2) Cons obtain d where v: "v = Latin d" and q': "latin_text q'"
      by (cases v) (auto simp: latin_text_def is_latin_def)
    from Cons.IH [OF m q'] u v Cons show ?thesis
      by (simp add: equal_ignoring_case_def lower_unit_def toLowerLatin1_eq_iff)
  qed
qed

lemma includes_toLowerCase:
  assumes "latin_text s" and "latin_text q"
  shows "includes_str (toLowerCase s) (toLowerCase q) \<longleftrightarrow> contains_ignoring_case s q"
proof
  let ?f = "lower_unit [] []"
  assume "includes_str (toLowerCase s) (toLowerCase q)"
  with assms obtain ps' ss' where "map ?f s = ps' @ map ?f q @ ss'"
    by (auto simp: includes_str_def toLowerCase_def lower_from_latin sublist_def)
  then have "\<exists>us vs. s = us @ vs \<and> ps' = map ?f us \<and> map ?f q @ ss' = map ?f vs"
    by (simp add: map_eq_append_conv)
  then obtain ps rest where s: "s = ps @ rest" and
    rest: "map ?f q @ ss' = map ?f rest"
    by blast
  from rest have "\<exists>us vs. rest = us @ vs \<and> map ?f q = map ?f us \<and> ss' = map ?f vs"
    by (simp add: append_eq_map_conv)
  then obtain m ss where r: "rest = m @ ss" and e: "map ?f m = map ?f q"
    by auto
  from assms(1) s r have "latin_text m" by (simp add: latin_text_append)
  with e assms(2) have "equal_ignoring_case m q" by (simp add: lower_latin_eq_iff)
  with s r show "contains_ignoring_case s q"
    unfolding contains_ignoring_case_def by blast
next
  let ?f = "lower_unit [] []"
  assume "contains_ignoring_case s q"
  then obtain ps m ss where s: "s = ps @ m @ ss" and e: "equal_ignoring_case m q"
    unfolding contains_ignoring_case_def by blast
  from assms(1) s have "latin_text m" by (simp add: latin_text_append)
  with e assms(2) have "map ?f m = map ?f q" by (simp add: lower_latin_eq_iff)
  with s have "map ?f s = map ?f ps @ map ?f q @ map ?f ss" by simp
  then have "sublist (map ?f q) (map ?f s)" by simp
  with assms show "includes_str (toLowerCase s) (toLowerCase q)"
    by (simp add: includes_str_def toLowerCase_def lower_from_latin)
qed

text \<open>
  C7, as stated, at a concrete input. The name of the student is \<^verbatim>\<open>A\<close> followed by
  a capital sigma, the query is the capital sigma. The name contains the query,
  even in the same case. But \<^verbatim>\<open>toLowerCase\<close> turns the sigma at the end of the name
  into the final small sigma and the sigma of the query, which stands alone, into
  the small sigma, so the lower-cased name does not include the lower-cased query
  and search returns nothing.
\<close>

theorem search_misses_capital_sigma:
  "includes_str (name sigma_student) [Capital_sigma] \<and>
   contains_ignoring_case (name sigma_student) [Capital_sigma] \<and>
   toLowerCase (name sigma_student) = [Latin CHR ''a'', Final_sigma] \<and>
   toLowerCase [Capital_sigma] = [Small_sigma] \<and>
   searchStudents [Capital_sigma] \<lparr> students = [sigma_student], teachers = [] \<rparr> = []"
proof -
  have n: "name sigma_student = [Latin CHR ''A''] @ [Capital_sigma] @ []"
    by (simp add: sigma_student_def)
  have "equal_ignoring_case [Capital_sigma] [Capital_sigma]"
    by (simp add: equal_ignoring_case_def same_letter_def)
  with n have c: "contains_ignoring_case (name sigma_student) [Capital_sigma]"
    unfolding contains_ignoring_case_def by blast
  have i: "includes_str (name sigma_student) [Capital_sigma]"
    unfolding n includes_str_def by (rule sublist_appendI)
  have l: "toLowerCase (name sigma_student) = [Latin CHR ''a'', Final_sigma]"
    "toLowerCase [Capital_sigma] = [Small_sigma]"
    by code_simp+
  have s: "searchStudents [Capital_sigma] \<lparr> students = [sigma_student], teachers = [] \<rparr> = []"
    by code_simp
  from i c l s show ?thesis by (intro conjI)
qed

text \<open>
  C7, amended. Search with the empty string returns every record. For every query
  of Latin-1 characters, over a collection whose names and emails are of Latin-1
  characters, search returns exactly the records whose name or email contains the
  query case-insensitively as a substring, in the order of the collection. The id
  plays no part: rewriting the ids of the collection by any function rewrites the
  ids of the result and changes nothing else. The same holds for teachers.
\<close>

theorem search_matches_name_or_email:
  "searchStudents [] st = students st \<and>
   (latin_text q \<and> (\<forall>s \<in> set (students st). latin_text (name s) \<and> latin_text (email s)) \<longrightarrow>
      searchStudents q st =
        filter (\<lambda>s. contains_ignoring_case (name s) q \<or> contains_ignoring_case (email s) q)
          (students st)) \<and>
   searchStudents q (st\<lparr>students := map (id'_update f) (students st)\<rparr>) =
     map (id'_update f) (searchStudents q st) \<and>
   searchTeachers [] st = teachers st \<and>
   (latin_text q \<and> (\<forall>t \<in> set (teachers st). latin_text (name t) \<and> latin_text (email t)) \<longrightarrow>
      searchTeachers q st =
        filter (\<lambda>t. contains_ignoring_case (name t) q \<or> contains_ignoring_case (email t) q)
          (teachers st)) \<and>
   searchTeachers q (st\<lparr>teachers := map (id'_update g) (teachers st)\<rparr>) =
     map (id'_update g) (searchTeachers q st)"
proof (intro conjI impI)
  show "searchStudents [] st = students st"
    by (simp add: searchStudents_def toLowerCase_Nil includes_empty)
  show "searchStudents q (st\<lparr>students := map (id'_update f) (students st)\<rparr>) =
     map (id'_update f) (searchStudents q st)"
    by (simp add: searchStudents_def filter_map comp_def Let_def)
  show "searchTeachers [] st = teachers st"
    by (simp add: searchTeachers_def toLowerCase_Nil includes_empty)
  show "searchTeachers q (st\<lparr>teachers := map (id'_update g) (teachers st)\<rparr>) =
     map (id'_update g) (searchTeachers q st)"
    by (simp add: searchTeachers_def filter_map comp_def Let_def)
next
  assume a: "latin_text q \<and>
    (\<forall>s \<in> set (students st). latin_text (name s) \<and> latin_text (email s))"
  then have "\<forall>s \<in> set (students st).
      (includes_str (toLowerCase (name s)) (toLowerCase q) \<or>
       includes_str (toLowerCase (email s)) (toLowerCase q)) =
      (contains_ignoring_case (name s) q \<or> contains_ignoring_case (email s) q)"
    by (simp add: includes_toLowerCase)
  then show "searchStudents q st =
        filter (\<lambda>s. contains_ignoring_case (name s) q \<or> contains_ignoring_case (email s) q)
          (students st)"
    unfolding searchStudents_def Let_def by (intro filter_cong refl) blast
next
  assume a: "latin_text q \<and>
    (\<forall>t \<in> set (teachers st). latin_text (name t) \<and> latin_text (email t))"
  then have "\<forall>t \<in> set (teachers st).
      (includes_str (toLowerCase (name t)) (toLowerCase q) \<or>
       includes_str (toLowerCase (email t)) (toLowerCase q)) =
      (contains_ignoring_case (name t) q \<or> contains_ignoring_case (email t) q)"
    by (simp add: includes_toLowerCase)
  then show "searchTeachers q st =
        filter (\<lambda>t. contains_ignoring_case (name t) q \<or> contains_ignoring_case (email t) q)
          (teachers st)"
    unfolding searchTeachers_def Let_def by (intro filter_cong refl) blast
qed

theorem search_matches_name_or_email_witness:
  "latin_text (latin1 ''JOHN'') \<and> latin_text (name john) \<and> latin_text (email john) \<and>
   latin_text (name ada) \<and> latin_text (email ada) \<and>
   searchStudents (latin1 ''JOHN'') example_store = [john] \<and>
   filter (\<lambda>s. contains_ignoring_case (name s) (latin1 ''JOHN'') \<or>
                contains_ignoring_case (email s) (latin1 ''JOHN'')) [john] = [john] \<and>
   searchTeachers (latin1 ''JOHN'') example_store = [] \<and>
   filter (\<lambda>t. contains_ignoring_case (name t) (latin1 ''JOHN'') \<or>
                contains_ignoring_case (email t) (latin1 ''JOHN'')) [ada] = []"
proof -
  have l: "latin_text (latin1 ''JOHN'')" "latin_text (name john)" "latin_text (email john)"
    "latin_text (name ada)" "latin_text (email ada)"
    by (simp_all add: john_def ada_def latin_text_def is_latin_def)
  have e: "searchStudents (latin1 ''JOHN'') example_store = [john]"
    "searchTeachers (latin1 ''JOHN'') example_store = []"
    by code_simp+
  note t = search_matches_name_or_email [of example_store "latin1 ''JOHN''"]
  from t l e have "filter (\<lambda>s. contains_ignoring_case (name s) (latin1 ''JOHN'') \<or>
                contains_ignoring_case (email s) (latin1 ''JOHN'')) [john] = [john]"
    by (simp add: example_store_def)
  moreover from t l e have "filter (\<lambda>t. contains_ignoring_case (name t) (latin1 ''JOHN'') \<or>
                contains_ignoring_case (email t) (latin1 ''JOHN'')) [ada] = []"
    by (simp add: example_store_def)
  ultimately show ?thesis using l e by (intro conjI)
qed

text \<open>
  On the example store: a query in another case matches the name, a query that
  occurs in the id only matches nothing. A capital letter of Latin-1 beyond
  \<^verbatim>\<open>A\<close> to \<^verbatim>\<open>Z\<close> is matched by its small letter as well: the name is \<^verbatim>\<open>Ecole\<close>
  with the capital E acute (201), the query has the small e acute (233).
\<close>

lemma search_examples:
  "searchStudents (latin1 ''JOHN'') example_store = [john] \<and>
   searchStudents (latin1 ''12345'') example_store = [] \<and>
   searchTeachers (latin1 ''x.EDU'') example_store = [ada] \<and>
   searchTeachers (latin1 ''T100'') example_store = [] \<and>
   searchStudents (Latin (CHR 0xE9) # latin1 ''cole'')
     \<lparr> students = [john\<lparr>name := Latin (CHR 0xC9) # latin1 ''cole''\<rparr>], teachers = [] \<rparr> =
     [john\<lparr>name := Latin (CHR 0xC9) # latin1 ''cole''\<rparr>]"
  by code_simp

section \<open>Update\<close>

lemma updateStudent_present:
  assumes "i \<in> id' ` set (students st)"
  shows "\<exists>k. findIndex (\<lambda>s. id' s = i) (students st) = Some k \<and> k < length (students st) \<and>
     id' (students st ! k) = i \<and>
     updateStudent i u st =
       Inr (mergeStudent (students st ! k) u i,
            st\<lparr>students := (students st)[k := mergeStudent (students st ! k) u i]\<rparr>)"
proof -
  from assms obtain k where k: "findIndex (\<lambda>s. id' s = i) (students st) = Some k"
    using findIndex_present [of "students st" "\<lambda>s. id' s = i"] by auto
  from findIndex_Some [OF k] have "k < length (students st)" "id' (students st ! k) = i"
    by auto
  with k show ?thesis
    by (simp add: updateStudent_def saveStudents_def Let_def)
qed

lemma updateTeacher_present:
  assumes "i \<in> id' ` set (teachers st)"
  shows "\<exists>k. findIndex (\<lambda>s. id' s = i) (teachers st) = Some k \<and> k < length (teachers st) \<and>
     id' (teachers st ! k) = i \<and>
     updateTeacher i u st =
       Inr (mergeTeacher (teachers st ! k) u i,
            st\<lparr>teachers := (teachers st)[k := mergeTeacher (teachers st ! k) u i]\<rparr>)"
proof -
  from assms obtain k where k: "findIndex (\<lambda>s. id' s = i) (teachers st) = Some k"
    using findIndex_present [of "teachers st" "\<lambda>s. id' s = i"] by auto
  from findIndex_Some [OF k] have "k < length (teachers st)" "id' (teachers st ! k) = i"
    by auto
  with k show ?thesis
    by (simp add: updateTeacher_def saveTeachers_def Let_def)
qed

text \<open>
  C6. For every record present in the collection, update succeeds and replaces the
  first record with that id, and nothing else in the store. In the new record each
  field given in the patch has the value of the patch, each field not given has its
  old value, and the id is the old id, whatever id the patch contains. The same
  holds for teachers, with the field \<^verbatim>\<open>specialization\<close> in addition.
\<close>

theorem update_changes_patch_fields_only:
  "(i \<in> id' ` set (students st) \<longrightarrow>
      (\<exists>k r st'. updateStudent i u st = Inr (r, st') \<and>
         findIndex (\<lambda>s. id' s = i) (students st) = Some k \<and> k < length (students st) \<and>
         students st' = (students st)[k := r] \<and> teachers st' = teachers st \<and>
         id' r = id' (students st ! k) \<and>
         name r = (case data_name u of None \<Rightarrow> name (students st ! k) | Some v \<Rightarrow> v) \<and>
         email r = (case data_email u of None \<Rightarrow> email (students st ! k) | Some v \<Rightarrow> v) \<and>
         password r =
           (case data_password u of None \<Rightarrow> password (students st ! k) | Some v \<Rightarrow> v))) \<and>
   (j \<in> id' ` set (teachers st) \<longrightarrow>
      (\<exists>k r st'. updateTeacher j ut st = Inr (r, st') \<and>
         findIndex (\<lambda>t. id' t = j) (teachers st) = Some k \<and> k < length (teachers st) \<and>
         teachers st' = (teachers st)[k := r] \<and> students st' = students st \<and>
         id' r = id' (teachers st ! k) \<and>
         name r = (case data_name ut of None \<Rightarrow> name (teachers st ! k) | Some v \<Rightarrow> v) \<and>
         email r = (case data_email ut of None \<Rightarrow> email (teachers st ! k) | Some v \<Rightarrow> v) \<and>
         password r =
           (case data_password ut of None \<Rightarrow> password (teachers st ! k) | Some v \<Rightarrow> v) \<and>
         specialization r =
           (case data_specialization ut of None \<Rightarrow> specialization (teachers st ! k)
            | Some v \<Rightarrow> v)))"
proof (intro conjI impI)
  assume "i \<in> id' ` set (students st)"
  from updateStudent_present [OF this, of u]
  show "\<exists>k r st'. updateStudent i u st = Inr (r, st') \<and>
         findIndex (\<lambda>s. id' s = i) (students st) = Some k \<and> k < length (students st) \<and>
         students st' = (students st)[k := r] \<and> teachers st' = teachers st \<and>
         id' r = id' (students st ! k) \<and>
         name r = (case data_name u of None \<Rightarrow> name (students st ! k) | Some v \<Rightarrow> v) \<and>
         email r = (case data_email u of None \<Rightarrow> email (students st ! k) | Some v \<Rightarrow> v) \<and>
         password r =
           (case data_password u of None \<Rightarrow> password (students st ! k) | Some v \<Rightarrow> v)"
    by (auto simp: mergeStudent_def)
next
  assume "j \<in> id' ` set (teachers st)"
  from updateTeacher_present [OF this, of ut]
  show "\<exists>k r st'. updateTeacher j ut st = Inr (r, st') \<and>
         findIndex (\<lambda>t. id' t = j) (teachers st) = Some k \<and> k < length (teachers st) \<and>
         teachers st' = (teachers st)[k := r] \<and> students st' = students st \<and>
         id' r = id' (teachers st ! k) \<and>
         name r = (case data_name ut of None \<Rightarrow> name (teachers st ! k) | Some v \<Rightarrow> v) \<and>
         email r = (case data_email ut of None \<Rightarrow> email (teachers st ! k) | Some v \<Rightarrow> v) \<and>
         password r =
           (case data_password ut of None \<Rightarrow> password (teachers st ! k) | Some v \<Rightarrow> v) \<and>
         specialization r =
           (case data_specialization ut of None \<Rightarrow> specialization (teachers st ! k)
            | Some v \<Rightarrow> v)"
    by (auto simp: mergeTeacher_def)
qed

theorem update_changes_patch_fields_only_witness:
  "(\<exists>r st'. updateStudent (latin1 ''1234500001'')
        \<lparr> data_id = Some (latin1 ''9''), data_name = Some (latin1 ''X''), data_email = None,
          data_password = None \<rparr> example_store = Inr (r, st') \<and>
      students st' = [r] \<and> teachers st' = [ada] \<and>
      r = john\<lparr>name := latin1 ''X''\<rparr>) \<and>
   (\<exists>r st'. updateTeacher (latin1 ''T100200301'')
        \<lparr> data_id = Some (latin1 ''9''), data_name = None, data_email = Some (latin1 ''ada@y.edu''),
          data_password = None, data_specialization = None \<rparr> example_store = Inr (r, st') \<and>
      teachers st' = [r] \<and> students st' = [john] \<and>
      r = ada\<lparr>email := latin1 ''ada@y.edu''\<rparr>)"
  using update_changes_patch_fields_only [of "latin1 ''1234500001''" example_store
      "\<lparr> data_id = Some (latin1 ''9''), data_name = Some (latin1 ''X''), data_email = None,
          data_password = None \<rparr>" "latin1 ''T100200301''"
      "\<lparr> data_id = Some (latin1 ''9''), data_name = None, data_email = Some (latin1 ''ada@y.edu''),
          data_password = None, data_specialization = None \<rparr>"]
  by (auto simp add: example_store_def john_def ada_def)

section \<open>Delete\<close>

lemma length_splice1: "k < length xs \<Longrightarrow> Suc (length (splice1 k xs)) = length xs"
  by (auto simp: splice1_def)

lemma deleteStudent_cases:
  "(i \<notin> id' ` set (students st) \<longrightarrow> deleteStudent i st = Inr (False, st)) \<and>
   (i \<in> id' ` set (students st) \<longrightarrow>
      (\<exists>k. findIndex (\<lambda>s. id' s = i) (students st) = Some k \<and> k < length (students st) \<and>
         deleteStudent i st = Inr (True, st\<lparr>students := splice1 k (students st)\<rparr>)))"
proof (intro conjI impI)
  assume "i \<notin> id' ` set (students st)"
  then have "findIndex (\<lambda>s. id' s = i) (students st) = None"
    by (auto simp: findIndex_None_iff)
  then show "deleteStudent i st = Inr (False, st)"
    by (simp add: deleteStudent_def)
next
  assume "i \<in> id' ` set (students st)"
  then obtain k where k: "findIndex (\<lambda>s. id' s = i) (students st) = Some k"
    using findIndex_present [of "students st" "\<lambda>s. id' s = i"] by auto
  from findIndex_Some [OF k] have "k < length (students st)" by simp
  with k show "\<exists>k. findIndex (\<lambda>s. id' s = i) (students st) = Some k \<and>
      k < length (students st) \<and>
      deleteStudent i st = Inr (True, st\<lparr>students := splice1 k (students st)\<rparr>)"
    by (simp add: deleteStudent_def saveStudents_def Let_def)
qed

lemma deleteTeacher_cases:
  "(i \<notin> id' ` set (teachers st) \<longrightarrow> deleteTeacher i st = Inr (False, st)) \<and>
   (i \<in> id' ` set (teachers st) \<longrightarrow>
      (\<exists>k. findIndex (\<lambda>s. id' s = i) (teachers st) = Some k \<and> k < length (teachers st) \<and>
         deleteTeacher i st = Inr (True, st\<lparr>teachers := splice1 k (teachers st)\<rparr>)))"
proof (intro conjI impI)
  assume "i \<notin> id' ` set (teachers st)"
  then have "findIndex (\<lambda>s. id' s = i) (teachers st) = None"
    by (auto simp: findIndex_None_iff)
  then show "deleteTeacher i st = Inr (False, st)"
    by (simp add: deleteTeacher_def)
next
  assume "i \<in> id' ` set (teachers st)"
  then obtain k where k: "findIndex (\<lambda>s. id' s = i) (teachers st) = Some k"
    using findIndex_present [of "teachers st" "\<lambda>s. id' s = i"] by auto
  from findIndex_Some [OF k] have "k < length (teachers st)" by simp
  with k show "\<exists>k. findIndex (\<lambda>s. id' s = i) (teachers st) = Some k \<and>
      k < length (teachers st) \<and>
      deleteTeacher i st = Inr (True, st\<lparr>teachers := splice1 k (teachers st)\<rparr>)"
    by (simp add: deleteTeacher_def saveTeachers_def Let_def)
qed

text \<open>
  C8. Delete on an id that is not in the collection returns \<^verbatim>\<open>false\<close> and leaves
  the store as it is. Delete on an id that is in the collection returns \<^verbatim>\<open>true\<close>,
  and the collection is shorter by exactly one. Delete returns in every case; it
  has no error result. The same holds for teachers.
\<close>

theorem delete_result_and_length:
  "(i \<notin> id' ` set (students st) \<longrightarrow> deleteStudent i st = Inr (False, st)) \<and>
   (i \<in> id' ` set (students st) \<longrightarrow>
      (\<exists>st'. deleteStudent i st = Inr (True, st') \<and>
         Suc (length (students st')) = length (students st))) \<and>
   (\<exists>b st'. deleteStudent i st = Inr (b, st')) \<and>
   (j \<notin> id' ` set (teachers st) \<longrightarrow> deleteTeacher j st = Inr (False, st)) \<and>
   (j \<in> id' ` set (teachers st) \<longrightarrow>
      (\<exists>st'. deleteTeacher j st = Inr (True, st') \<and>
         Suc (length (teachers st')) = length (teachers st))) \<and>
   (\<exists>b st'. deleteTeacher j st = Inr (b, st'))"
proof -
  have s1: "i \<notin> id' ` set (students st) \<longrightarrow> deleteStudent i st = Inr (False, st)"
    using deleteStudent_cases [of i st] by simp
  have s2: "i \<in> id' ` set (students st) \<longrightarrow>
      (\<exists>st'. deleteStudent i st = Inr (True, st') \<and>
         Suc (length (students st')) = length (students st))"
    using deleteStudent_cases [of i st] by (auto simp: length_splice1)
  have s3: "\<exists>b st'. deleteStudent i st = Inr (b, st')"
    using s1 s2 by (cases "i \<in> id' ` set (students st)") blast+
  have t1: "j \<notin> id' ` set (teachers st) \<longrightarrow> deleteTeacher j st = Inr (False, st)"
    using deleteTeacher_cases [of j st] by simp
  have t2: "j \<in> id' ` set (teachers st) \<longrightarrow>
      (\<exists>st'. deleteTeacher j st = Inr (True, st') \<and>
         Suc (length (teachers st')) = length (teachers st))"
    using deleteTeacher_cases [of j st] by (auto simp: length_splice1)
  have t3: "\<exists>b st'. deleteTeacher j st = Inr (b, st')"
    using t1 t2 by (cases "j \<in> id' ` set (teachers st)") blast+
  from s1 s2 s3 t1 t2 t3 show ?thesis by blast
qed

theorem delete_result_and_length_witness:
  "deleteStudent (latin1 ''nobody'') example_store = Inr (False, example_store) \<and>
   deleteTeacher (latin1 ''nobody'') example_store = Inr (False, example_store) \<and>
   (\<exists>st'. deleteStudent (latin1 ''1234500001'') example_store = Inr (True, st') \<and>
      Suc (length (students st')) = length (students example_store)) \<and>
   (\<exists>st'. deleteTeacher (latin1 ''T100200301'') example_store = Inr (True, st') \<and>
      Suc (length (teachers st')) = length (teachers example_store))"
  using delete_result_and_length [of "latin1 ''nobody''" example_store "latin1 ''nobody''"]
    delete_result_and_length [of "latin1 ''1234500001''" example_store "latin1 ''T100200301''"]
  by (simp add: example_store_def john_def ada_def)

section \<open>Uniqueness of ids\<close>

lemma distinct_splice1: "distinct xs \<Longrightarrow> distinct (splice1 k xs)"
  unfolding splice1_def
  by (simp add: set_take_disj_set_drop_if_distinct)

lemma map_splice1: "map f (splice1 k xs) = splice1 k (map f xs)"
  by (simp add: splice1_def take_map drop_map)

lemma createStudent_unique:
  assumes "distinct (map id' (students st))" and "createStudent d st = Inr (r, st')"
  shows "distinct (map id' (students st')) \<and> teachers st' = teachers st"
proof -
  from assms(2) have f: "List.find (\<lambda>s. id' s = the (data_id d)) (students st) = None"
    by (auto simp: createStudent_def Let_def split: if_splits)
  from assms(2) f have st': "st' = st\<lparr>students := students st @ [r]\<rparr>"
    and r: "id' r = the (data_id d)"
    by (auto simp: createStudent_def saveStudents_def Let_def split: if_splits)
  from f have "id' r \<notin> id' ` set (students st)"
    by (auto simp: r find_None_iff)
  with assms(1) st' show ?thesis by simp
qed

lemma createTeacher_unique:
  assumes "distinct (map id' (teachers st))" and "createTeacher d st = Inr (r, st')"
  shows "distinct (map id' (teachers st')) \<and> students st' = students st"
proof -
  from assms(2) have f: "List.find (\<lambda>s. id' s = the (data_id d)) (teachers st) = None"
    by (auto simp: createTeacher_def Let_def split: if_splits)
  from assms(2) f have st': "st' = st\<lparr>teachers := teachers st @ [r]\<rparr>"
    and r: "id' r = the (data_id d)"
    by (auto simp: createTeacher_def saveTeachers_def Let_def split: if_splits)
  from f have "id' r \<notin> id' ` set (teachers st)"
    by (auto simp: r find_None_iff)
  with assms(1) st' show ?thesis by simp
qed

lemma updateStudent_ids:
  "updateStudent i u st = Inr (r, st') \<Longrightarrow>
   map id' (students st') = map id' (students st) \<and> teachers st' = teachers st"
proof -
  assume a: "updateStudent i u st = Inr (r, st')"
  then obtain k where k: "findIndex (\<lambda>s. id' s = i) (students st) = Some k"
    by (auto simp: updateStudent_def split: option.splits)
  from findIndex_Some [OF k] have kk: "k < length (students st)" "id' (students st ! k) = i"
    by auto
  from a k have "st' = st\<lparr>students := (students st)[k := mergeStudent (students st ! k) u i]\<rparr>"
    by (simp add: updateStudent_def saveStudents_def Let_def)
  moreover have "id' (mergeStudent (students st ! k) u i) = i"
    by (simp add: mergeStudent_def)
  ultimately show ?thesis
    using kk by (simp add: map_update list_update_same_conv)
qed

lemma updateTeacher_ids:
  "updateTeacher i u st = Inr (r, st') \<Longrightarrow>
   map id' (teachers st') = map id' (teachers st) \<and> students st' = students st"
proof -
  assume a: "updateTeacher i u st = Inr (r, st')"
  then obtain k where k: "findIndex (\<lambda>s. id' s = i) (teachers st) = Some k"
    by (auto simp: updateTeacher_def split: option.splits)
  from findIndex_Some [OF k] have kk: "k < length (teachers st)" "id' (teachers st ! k) = i"
    by auto
  from a k have "st' = st\<lparr>teachers := (teachers st)[k := mergeTeacher (teachers st ! k) u i]\<rparr>"
    by (simp add: updateTeacher_def saveTeachers_def Let_def)
  moreover have "id' (mergeTeacher (teachers st ! k) u i) = i"
    by (simp add: mergeTeacher_def)
  ultimately show ?thesis
    using kk by (simp add: map_update list_update_same_conv)
qed

lemma deleteStudent_unique:
  "distinct (map id' (students st)) \<Longrightarrow> deleteStudent i st = Inr (b, st') \<Longrightarrow>
   distinct (map id' (students st')) \<and> teachers st' = teachers st"
  by (auto simp: deleteStudent_def saveStudents_def Let_def map_splice1 distinct_splice1
      split: option.splits)

lemma deleteTeacher_unique:
  "distinct (map id' (teachers st)) \<Longrightarrow> deleteTeacher i st = Inr (b, st') \<Longrightarrow>
   distinct (map id' (teachers st')) \<and> students st' = students st"
  by (auto simp: deleteTeacher_def saveTeachers_def Let_def map_splice1 distinct_splice1
      split: option.splits)

lemma unique_after_students:
  assumes "unique_ids st"
    and "\<And>v st'. r = Inr (v, st') \<Longrightarrow>
           distinct (map id' (students st')) \<and> teachers st' = teachers st"
  shows "unique_ids (after r st)"
proof (cases r)
  case (Inl e)
  with assms(1) show ?thesis by (simp add: after_def)
next
  case (Inr p)
  obtain v st' where p: "p = (v, st')" by (cases p)
  from assms(2) [of v st'] Inr p assms(1) show ?thesis
    by (simp add: after_def unique_ids_def)
qed

lemma unique_after_teachers:
  assumes "unique_ids st"
    and "\<And>v st'. r = Inr (v, st') \<Longrightarrow>
           distinct (map id' (teachers st')) \<and> students st' = students st"
  shows "unique_ids (after r st)"
proof (cases r)
  case (Inl e)
  with assms(1) show ?thesis by (simp add: after_def)
next
  case (Inr p)
  obtain v st' where p: "p = (v, st')" by (cases p)
  from assms(2) [of v st'] Inr p assms(1) show ?thesis
    by (simp add: after_def unique_ids_def)
qed

lemma importData_unique:
  assumes "unique_ids st" and "import_unique (ImportData data)"
    and "importData data st = Inr st'"
  shows "unique_ids st'"
proof (cases data)
  case None
  with assms(3) show ?thesis by (simp add: importData_def)
next
  case (Some d)
  with assms(3) have st': "st' =
      (case data_teachers d of None \<Rightarrow>
         (case data_students d of None \<Rightarrow> st | Some xs \<Rightarrow> saveStudents xs st)
       | Some ys \<Rightarrow> saveTeachers ys
         (case data_students d of None \<Rightarrow> st | Some xs \<Rightarrow> saveStudents xs st))"
    by (simp add: importData_def Let_def)
  from assms(2) Some have
    s: "case data_students d of None \<Rightarrow> True | Some xs \<Rightarrow> distinct (map id' xs)" and
    t: "case data_teachers d of None \<Rightarrow> True | Some ys \<Rightarrow> distinct (map id' ys)"
    by simp_all
  show ?thesis
  proof (cases "data_students d")
    case None
    note ns = this
    show ?thesis
    proof (cases "data_teachers d")
      case None
      with ns st' assms(1) show ?thesis by simp
    next
      case (Some ys)
      with ns st' assms(1) t show ?thesis
        by (simp add: unique_ids_def saveTeachers_def)
    qed
  next
    case (Some xs)
    note ss = this
    show ?thesis
    proof (cases "data_teachers d")
      case None
      with ss st' assms(1) s show ?thesis
        by (simp add: unique_ids_def saveStudents_def)
    next
      case (Some ys)
      with ss st' s t show ?thesis
        by (simp add: unique_ids_def saveStudents_def saveTeachers_def)
    qed
  qed
qed

lemma step_unique_ids:
  assumes "unique_ids st" and "distinct (map id' ss)" and "distinct (map id' ts)"
    and "import_unique x"
  shows "unique_ids (step ss ts x st)"
proof (cases x)
  case (CreateStudent d)
  have "unique_ids (after (createStudent d st) st)"
    using assms(1)
  proof (rule unique_after_students)
    fix v st' assume "createStudent d st = Inr (v, st')"
    moreover from assms(1) have "distinct (map id' (students st))"
      by (simp add: unique_ids_def)
    ultimately show "distinct (map id' (students st')) \<and> teachers st' = teachers st"
      by (rule createStudent_unique [rotated])
  qed
  with CreateStudent show ?thesis by simp
next
  case (UpdateStudent i u)
  have "unique_ids (after (updateStudent i u st) st)"
    using assms(1)
  proof (rule unique_after_students)
    fix v st' assume "updateStudent i u st = Inr (v, st')"
    from updateStudent_ids [OF this] assms(1)
    show "distinct (map id' (students st')) \<and> teachers st' = teachers st"
      by (simp add: unique_ids_def)
  qed
  with UpdateStudent show ?thesis by simp
next
  case (DeleteStudent i)
  have "unique_ids (after (deleteStudent i st) st)"
    using assms(1)
  proof (rule unique_after_students)
    fix v st' assume "deleteStudent i st = Inr (v, st')"
    moreover from assms(1) have "distinct (map id' (students st))"
      by (simp add: unique_ids_def)
    ultimately show "distinct (map id' (students st')) \<and> teachers st' = teachers st"
      by (rule deleteStudent_unique [rotated])
  qed
  with DeleteStudent show ?thesis by simp
next
  case (SearchStudents q)
  with assms(1) show ?thesis by simp
next
  case (CreateTeacher d)
  have "unique_ids (after (createTeacher d st) st)"
    using assms(1)
  proof (rule unique_after_teachers)
    fix v st' assume "createTeacher d st = Inr (v, st')"
    moreover from assms(1) have "distinct (map id' (teachers st))"
      by (simp add: unique_ids_def)
    ultimately show "distinct (map id' (teachers st')) \<and> students st' = students st"
      by (rule createTeacher_unique [rotated])
  qed
  with CreateTeacher show ?thesis by simp
next
  case (UpdateTeacher i u)
  have "unique_ids (after (updateTeacher i u st) st)"
    using assms(1)
  proof (rule unique_after_teachers)
    fix v st' assume "updateTeacher i u st = Inr (v, st')"
    from updateTeacher_ids [OF this] assms(1)
    show "distinct (map id' (teachers st')) \<and> students st' = students st"
      by (simp add: unique_ids_def)
  qed
  with UpdateTeacher show ?thesis by simp
next
  case (DeleteTeacher i)
  have "unique_ids (after (deleteTeacher i st) st)"
    using assms(1)
  proof (rule unique_after_teachers)
    fix v st' assume "deleteTeacher i st = Inr (v, st')"
    moreover from assms(1) have "distinct (map id' (teachers st))"
      by (simp add: unique_ids_def)
    ultimately show "distinct (map id' (teachers st')) \<and> students st' = students st"
      by (rule deleteTeacher_unique [rotated])
  qed
  with DeleteTeacher show ?thesis by simp
next
  case (SearchTeachers q)
  with assms(1) show ?thesis by simp
next
  case (ExportData now)
  with assms(1) show ?thesis by simp
next
  case (ImportData data)
  show ?thesis
  proof (cases "importData data st")
    case (Inl e)
    with ImportData assms(1) show ?thesis by simp
  next
    case (Inr st')
    from importData_unique [OF assms(1) _ Inr] assms(4) ImportData Inr
    show ?thesis by simp
  qed
next
  case ResetAllData
  with assms(2,3) show ?thesis
    by (simp add: unique_ids_def resetAllData_def resetStudents_def resetTeachers_def)
qed

text \<open>
  C2, as stated, at a concrete sequence: the ids of the example store are pairwise
  distinct, and after one import of an array that holds the same student twice they
  are not. Import replaces the collection with the array it is given and validates
  no record.
\<close>

theorem import_breaks_unique_ids:
  "unique_ids example_store \<and>
   \<not> unique_ids (run [] []
        [ImportData (Some \<lparr> data_students = Some [john, john], data_teachers = None,
                            exportDate = None \<rparr>)] example_store)"
  by (simp add: unique_ids_def example_store_def importData_def saveStudents_def)

text \<open>
  C2, amended. Starting from a state in which the ids of each collection are
  pairwise distinct, every sequence of create, update, delete, search, export,
  import and reset calls ends in such a state, provided that each import carries
  arrays with pairwise distinct ids and that the seed collections of reset have
  pairwise distinct ids.
\<close>

theorem run_unique_ids:
  "unique_ids st \<Longrightarrow> distinct (map id' ss) \<Longrightarrow> distinct (map id' ts) \<Longrightarrow>
   \<forall>x \<in> set ops. import_unique x \<Longrightarrow> unique_ids (run ss ts ops st)"
proof (induction ops arbitrary: st)
  case Nil
  then show ?case by simp
next
  case (Cons x ops)
  from Cons.prems have "unique_ids (step ss ts x st)"
    by (intro step_unique_ids) simp_all
  with Cons show ?case by simp
qed

theorem run_unique_ids_witness:
  "unique_ids example_store \<and>
   unique_ids (run [john] [ada]
     [CreateStudent jane_data, CreateStudent jane_data, UpdateStudent (latin1 ''1234500001'')
        \<lparr> data_id = Some (latin1 ''1234500002''), data_name = Some (latin1 ''X''), data_email = None,
          data_password = None \<rparr>, DeleteTeacher (latin1 ''T100200301''), SearchStudents (latin1 ''a''),
      ExportData (latin1 ''2024-01-01T00:00:00.000Z''),
      ImportData (Some (exportData (latin1 ''2024-01-01T00:00:00.000Z'') example_store)),
      CreateTeacher emmy_data, ResetAllData] example_store)"
proof -
  have u: "unique_ids example_store"
    by (simp add: unique_ids_def example_store_def john_def ada_def)
  have i: "\<forall>x \<in> set [CreateStudent jane_data, CreateStudent jane_data,
      UpdateStudent (latin1 ''1234500001'')
        \<lparr> data_id = Some (latin1 ''1234500002''), data_name = Some (latin1 ''X''), data_email = None,
          data_password = None \<rparr>, DeleteTeacher (latin1 ''T100200301''), SearchStudents (latin1 ''a''),
      ExportData (latin1 ''2024-01-01T00:00:00.000Z''),
      ImportData (Some (exportData (latin1 ''2024-01-01T00:00:00.000Z'') example_store)),
      CreateTeacher emmy_data, ResetAllData]. import_unique x"
    by (simp add: exportData_def example_store_def john_def ada_def)
  have s: "distinct (map id' [john])" and t: "distinct (map id' [ada])"
    by simp_all
  show ?thesis
    by (rule conjI [OF u run_unique_ids [OF u s t i]])
qed

section \<open>Reads on references\<close>

text \<open>
  A heap that extends another one gives every value of the smaller heap the same
  record, so cells appended by a read, and mutations of such cells, leave the
  stored collections as they are.
\<close>

lemma example_memory_store: "store_of example_memory = Some example_store"
  by code_simp

lemma lookup_prefix: "prefix h h' \<Longrightarrow> lookup h a = Some c \<Longrightarrow> lookup h' a = Some c"
  by (auto simp: lookup_def prefix_def nth_append split: if_splits)

lemma get_prop_prefix:
  "prefix h h' \<Longrightarrow> get_prop h v k = Some x \<Longrightarrow> get_prop h' v k = Some x"
  by (auto simp: get_prop_def lookup_prefix split: jsval.splits option.splits cell.splits
      dest: lookup_prefix)

lemma student_at_prefix:
  assumes "student_at h v = Some s" and "prefix h h'"
  shows "student_at h' v = Some s"
proof -
  from assms(1) obtain i n e p where
    "get_prop h v ''id'' = Some (Str i)" "get_prop h v ''name'' = Some (Str n)"
    "get_prop h v ''email'' = Some (Str e)" "get_prop h v ''password'' = Some (Str p)"
    and s: "s = \<lparr> id' = i, name = n, email = e, password = p \<rparr>"
    by (auto simp: student_at_def split: option.splits jsval.splits)
  then have "get_prop h' v ''id'' = Some (Str i)" "get_prop h' v ''name'' = Some (Str n)"
    "get_prop h' v ''email'' = Some (Str e)" "get_prop h' v ''password'' = Some (Str p)"
    using assms(2) by (auto intro: get_prop_prefix)
  with s show ?thesis by (simp add: student_at_def)
qed

lemma strings_at_prefix:
  "strings_at h v = Some xs \<Longrightarrow> prefix h h' \<Longrightarrow> strings_at h' v = Some xs"
  by (auto simp: strings_at_def split: jsval.splits option.splits cell.splits
      dest: lookup_prefix)

lemma teacher_at_prefix:
  assumes "teacher_at h v = Some t" and "prefix h h'"
  shows "teacher_at h' v = Some t"
proof -
  from assms(1) obtain s sv xs where
    a: "student_at h v = Some s" "get_prop h v ''specialization'' = Some sv"
      "strings_at h sv = Some xs"
    and t: "t = \<lparr> id' = id' s, name = name s, email = email s,
                  password = password s, specialization = xs \<rparr>"
    by (auto simp: teacher_at_def split: option.splits)
  from a assms(2) have "student_at h' v = Some s"
    "get_prop h' v ''specialization'' = Some sv" "strings_at h' sv = Some xs"
    by (auto intro: student_at_prefix get_prop_prefix strings_at_prefix)
  with t show ?thesis by (simp add: teacher_at_def)
qed

lemma those_map_Some:
  "those (map f vs) = Some xs \<longleftrightarrow> list_all2 (\<lambda>v x. f v = Some x) vs xs"
proof (induction vs arbitrary: xs)
  case Nil
  then show ?case by auto
next
  case (Cons v vs)
  then show ?case
    by (cases xs) (auto split: option.splits)
qed

lemma records_at_prefix:
  assumes "\<And>v x. f h v = Some x \<Longrightarrow> f h' v = Some x"
    and "records_at f h v = Some xs" and "prefix h h'"
  shows "records_at f h' v = Some xs"
proof -
  from assms(2) obtain a vs where v: "v = Ref a" and l: "lookup h a = Some (Arr vs)"
    and t: "those (map (f h) vs) = Some xs"
    by (auto simp: records_at_def split: jsval.splits option.splits cell.splits)
  from t have "list_all2 (\<lambda>v x. f h v = Some x) vs xs" by (simp add: those_map_Some)
  then have "list_all2 (\<lambda>v x. f h' v = Some x) vs xs"
    by (rule list_all2_mono) (rule assms(1))
  then have "those (map (f h') vs) = Some xs" by (simp add: those_map_Some)
  moreover from l assms(3) have "lookup h' a = Some (Arr vs)" by (rule lookup_prefix [rotated])
  ultimately show ?thesis using v by (simp add: records_at_def)
qed

lemma store_of_prefix:
  assumes "store_of m = Some s" and "prefix (heap m) h'"
  shows "store_of (m\<lparr>heap := h'\<rparr>) = Some s"
proof -
  from assms(1) obtain ss ts where
    a: "records_at student_at (heap m) (Ref (students_ref m)) = Some ss"
      "records_at teacher_at (heap m) (Ref (teachers_ref m)) = Some ts"
    and s: "s = \<lparr> students = ss, teachers = ts \<rparr>"
    by (auto simp: store_of_def split: option.splits)
  have "records_at student_at h' (Ref (students_ref m)) = Some ss"
  proof (rule records_at_prefix [OF _ a(1) assms(2)])
    fix v x assume "student_at (heap m) v = Some x"
    then show "student_at h' v = Some x" using assms(2) by (rule student_at_prefix)
  qed
  moreover have "records_at teacher_at h' (Ref (teachers_ref m)) = Some ts"
  proof (rule records_at_prefix [OF _ a(2) assms(2)])
    fix v x assume "teacher_at (heap m) v = Some x"
    then show "teacher_at h' v = Some x" using assms(2) by (rule teacher_at_prefix)
  qed
  ultimately show ?thesis using s by (simp add: store_of_def)
qed

lemma prefix_list_update:
  assumes "prefix h h'" and "length h \<le> b"
  shows "prefix h (h'[b := c])"
proof -
  from assms(1) obtain zs where "h' = h @ zs" by (auto simp: prefix_def)
  with assms(2) have "h'[b := c] = h @ zs[b - length h := c]"
    by (simp add: list_update_append)
  then show ?thesis by simp
qed

lemma store_of_mutate:
  assumes "store_of m = Some s" and "prefix (heap m) (heap m')"
    and "students_ref m' = students_ref m" and "teachers_ref m' = teachers_ref m"
    and "length (heap m) \<le> b"
  shows "store_of (mutate b c m') = Some s"
proof -
  have "prefix (heap m) ((heap m')[b := c])"
    using assms(2,5) by (rule prefix_list_update)
  with assms(1) have "store_of (m\<lparr>heap := (heap m')[b := c]\<rparr>) = Some s"
    by (rule store_of_prefix)
  then show ?thesis using assms(3,4)
    by (simp add: store_of_def mutate_def)
qed

lemma get_prop_SomeD:
  "get_prop h v k = Some x \<Longrightarrow>
   \<exists>a ps. v = Ref a \<and> lookup h a = Some (Obj ps) \<and> map_of ps k = Some x"
  by (auto simp: get_prop_def split: jsval.splits option.splits cell.splits)

lemma get_prop_copy:
  "lookup h a = Some (Obj ps) \<Longrightarrow>
   get_prop (h @ [Obj ps]) (Ref (length h)) k = get_prop h (Ref a) k"
  by (simp add: get_prop_def lookup_def)

lemma student_at_copy:
  assumes "student_at h v = Some s"
  shows "\<exists>r h'. spread_copy v h = Some (r, h') \<and> student_at h' r = Some s"
proof -
  from assms have "\<exists>x. get_prop h v ''id'' = Some x"
    by (auto simp: student_at_def split: option.splits)
  then obtain a ps where v: "v = Ref a" and l: "lookup h a = Some (Obj ps)"
    by (auto dest: get_prop_SomeD)
  then have "spread_copy v h = Some (Ref (length h), h @ [Obj ps])"
    by (simp add: spread_copy_def)
  moreover have "student_at (h @ [Obj ps]) (Ref (length h)) = student_at h (Ref a)"
    by (simp add: student_at_def get_prop_copy [OF l])
  ultimately show ?thesis using assms v by simp
qed

lemma teacher_at_copy:
  assumes "teacher_at h v = Some t"
  shows "\<exists>r h'. spread_copy v h = Some (r, h') \<and> teacher_at h' r = Some t"
proof -
  from assms obtain s sv xs where
    a: "student_at h v = Some s" "get_prop h v ''specialization'' = Some sv"
      "strings_at h sv = Some xs"
    and t: "t = \<lparr> id' = id' s, name = name s, email = email s,
                  password = password s, specialization = xs \<rparr>"
    by (auto simp: teacher_at_def split: option.splits)
  from a(2) obtain a' ps where v: "v = Ref a'" and l: "lookup h a' = Some (Obj ps)"
    by (auto dest: get_prop_SomeD)
  let ?h = "h @ [Obj ps]"
  have c: "spread_copy v h = Some (Ref (length h), ?h)"
    using v l by (simp add: spread_copy_def)
  have "student_at ?h (Ref (length h)) = Some s"
    using a(1) v by (simp add: student_at_def get_prop_copy [OF l])
  moreover have "get_prop ?h (Ref (length h)) ''specialization'' = Some sv"
    using a(2) v by (simp add: get_prop_copy [OF l])
  moreover have "strings_at ?h sv = Some xs"
    using a(3) by (rule strings_at_prefix) simp
  ultimately have "teacher_at ?h (Ref (length h)) = Some t"
    using t by (simp add: teacher_at_def)
  with c show ?thesis by simp
qed

lemma spread_copy_shape:
  "spread_copy v h = Some (r, h') \<Longrightarrow>
   r = Ref (length h) \<and> (\<exists>ps. h' = h @ [Obj ps])"
  by (auto simp: spread_copy_def split: jsval.splits option.splits cell.splits)

lemma map_copy_shape:
  "map_copy vs h = Some (rs, h') \<Longrightarrow>
   prefix h h' \<and> (\<forall>r \<in> set rs. \<exists>b. r = Ref b \<and> length h \<le> b \<and> b < length h')"
proof (induction vs arbitrary: h rs)
  case Nil
  then show ?case by simp
next
  case (Cons v vs)
  from Cons.prems obtain r h1 rs' where
    c: "spread_copy v h = Some (r, h1)" and m: "map_copy vs h1 = Some (rs', h')"
    and rs: "rs = r # rs'"
    by (auto split: option.splits)
  from spread_copy_shape [OF c] obtain ps where r: "r = Ref (length h)" and h1: "h1 = h @ [Obj ps]"
    by auto
  from Cons.IH [OF m] have ih: "prefix h1 h'"
    "\<forall>r \<in> set rs'. \<exists>b. r = Ref b \<and> length h1 \<le> b \<and> b < length h'"
    by auto
  from ih(1) h1 have p: "prefix h h'" by (auto simp: prefix_def)
  from ih(1) h1 have "length h < length h'" by (auto simp: prefix_def)
  with r ih(2) h1 rs p show ?case by auto
qed

lemma map_copy_views:
  assumes mono: "\<And>h h' v x. f h v = Some x \<Longrightarrow> prefix h h' \<Longrightarrow> f h' v = Some x"
    and copy: "\<And>h v x. f h v = Some x \<Longrightarrow>
                 \<exists>r h'. spread_copy v h = Some (r, h') \<and> f h' r = Some x"
    and "list_all2 (\<lambda>v x. f h v = Some x) vs xs"
  shows "\<exists>rs h'. map_copy vs h = Some (rs, h') \<and> list_all2 (\<lambda>v x. f h' v = Some x) rs xs"
  using assms(3)
proof (induction vs arbitrary: h xs)
  case Nil
  then show ?case by simp
next
  case (Cons v vs)
  from Cons.prems obtain x xs' where xs: "xs = x # xs'" and x: "f h v = Some x"
    and rest: "list_all2 (\<lambda>v x. f h v = Some x) vs xs'"
    by (auto simp: list_all2_Cons1)
  from copy [OF x] obtain r h1 where c: "spread_copy v h = Some (r, h1)"
    and r: "f h1 r = Some x" by auto
  from spread_copy_shape [OF c] have p: "prefix h h1" by auto
  from rest have "list_all2 (\<lambda>v x. f h1 v = Some x) vs xs'"
    by (rule list_all2_mono) (rule mono [OF _ p])
  from Cons.IH [OF this] obtain rs h' where m: "map_copy vs h1 = Some (rs, h')"
    and v: "list_all2 (\<lambda>v x. f h' v = Some x) rs xs'" by auto
  from map_copy_shape [OF m] have "prefix h1 h'" by simp
  with r have "f h' r = Some x" by (rule mono)
  with c m v xs show ?case by simp
qed

lemma returned_cells_obj:
  "returned_cells (h @ [Obj ps]) (Ref (length h)) = [length h]"
  by (simp add: returned_cells_def lookup_def)

lemma returned_cells_arr:
  "returned_cells (h @ [Arr rs]) (Ref (length h)) = length h # concat (map addr_of rs)"
  by (simp add: returned_cells_def lookup_def)

lemma list_copies_fresh:
  assumes mono: "\<And>h h' v x. f h v = Some x \<Longrightarrow> prefix h h' \<Longrightarrow> f h' v = Some x"
    and copy: "\<And>h v x. f h v = Some x \<Longrightarrow>
                 \<exists>r h'. spread_copy v h = Some (r, h') \<and> f h' r = Some x"
    and "records_at f (heap m) (Ref root) = Some xs"
  shows "\<exists>r m'. list_copies root m = Some (r, m') \<and> records_at f (heap m') r = Some xs \<and>
     prefix (heap m) (heap m') \<and> students_ref m' = students_ref m \<and>
     teachers_ref m' = teachers_ref m \<and>
     (\<forall>b \<in> set (returned_cells (heap m') r). length (heap m) \<le> b)"
proof -
  from assms(3) obtain vs where l: "lookup (heap m) root = Some (Arr vs)"
    and t: "those (map (f (heap m)) vs) = Some xs"
    by (auto simp: records_at_def split: option.splits cell.splits)
  from t have "list_all2 (\<lambda>v x. f (heap m) v = Some x) vs xs" by (simp add: those_map_Some)
  then have "\<exists>rs h'. map_copy vs (heap m) = Some (rs, h') \<and>
      list_all2 (\<lambda>v x. f h' v = Some x) rs xs"
    by (rule map_copy_views [where f = f, rotated 2]) (erule (1) mono, erule copy)
  then obtain rs h1 where
    m: "map_copy vs (heap m) = Some (rs, h1)" and
    v: "list_all2 (\<lambda>v x. f h1 v = Some x) rs xs"
    by blast
  from map_copy_shape [OF m] have p: "prefix (heap m) h1" and
    fresh: "\<forall>r \<in> set rs. \<exists>b. r = Ref b \<and> length (heap m) \<le> b \<and> b < length h1"
    by auto
  let ?h = "h1 @ [Arr rs]"
  let ?m = "m\<lparr>heap := ?h\<rparr>"
  have r: "list_copies root m = Some (Ref (length h1), ?m)"
    using l m by (simp add: list_copies_def)
  from v have "list_all2 (\<lambda>v x. f ?h v = Some x) rs xs"
    by (rule list_all2_mono) (rule mono, assumption, simp)
  then have c: "records_at f (heap ?m) (Ref (length h1)) = Some xs"
    by (simp add: records_at_def lookup_def those_map_Some)
  from p have p': "prefix (heap m) (heap ?m)" by (auto simp: prefix_def)
  from p have le: "length (heap m) \<le> length h1" by (rule prefix_length_le)
  have "\<forall>b \<in> set (returned_cells (heap ?m) (Ref (length h1))). length (heap m) \<le> b"
    using fresh le by (auto simp: returned_cells_arr addr_of_def split: jsval.splits)
  with r c p' show ?thesis by simp
qed

lemma find_linked:
  assumes idp: "\<And>v x. f v = Some x \<Longrightarrow> P v \<longleftrightarrow> Q x"
    and "list_all2 (\<lambda>v x. f v = Some x) vs xs"
  shows "(List.find P vs = None \<and> List.find Q xs = None) \<or>
     (\<exists>v x. List.find P vs = Some v \<and> List.find Q xs = Some x \<and> f v = Some x)"
  using assms(2)
proof (induction rule: list_all2_induct)
  case Nil
  then show ?case by simp
next
  case (Cons v vs x xs)
  from Cons.hyps(1) have "P v \<longleftrightarrow> Q x" by (rule idp)
  with Cons show ?case by auto
qed

lemma find_copy_fresh:
  assumes copy: "\<And>h v x. f h v = Some x \<Longrightarrow>
                 \<exists>r h'. spread_copy v h = Some (r, h') \<and> f h' r = Some x"
    and idp: "\<And>h v x. f h v = Some x \<Longrightarrow> get_prop h v ''id'' = Some (Str i) \<longleftrightarrow> id' x = i"
    and "records_at f (heap m) (Ref root) = Some xs"
  shows "\<exists>r m'. find_copy root i m = Some (r, m') \<and>
     Option.bind r (f (heap m')) = List.find (\<lambda>x. id' x = i) xs \<and>
     prefix (heap m) (heap m') \<and> students_ref m' = students_ref m \<and>
     teachers_ref m' = teachers_ref m \<and>
     (\<forall>v. r = Some v \<longrightarrow> (\<forall>b \<in> set (returned_cells (heap m') v). length (heap m) \<le> b))"
proof -
  from assms(3) obtain vs where l: "lookup (heap m) root = Some (Arr vs)"
    and t: "those (map (f (heap m)) vs) = Some xs"
    by (auto simp: records_at_def split: option.splits cell.splits)
  from t have a: "list_all2 (\<lambda>v x. f (heap m) v = Some x) vs xs"
    by (simp add: those_map_Some)
  let ?P = "\<lambda>v. get_prop (heap m) v ''id'' = Some (Str i)"
  let ?Q = "\<lambda>x. id' x = i"
  have "(List.find ?P vs = None \<and> List.find ?Q xs = None) \<or>
     (\<exists>v x. List.find ?P vs = Some v \<and> List.find ?Q xs = Some x \<and> f (heap m) v = Some x)"
    using a by (rule find_linked [where f = "f (heap m)", rotated]) (erule idp)
  then consider (absent) "List.find ?P vs = None" "List.find ?Q xs = None"
    | (present) v x where "List.find ?P vs = Some v" "List.find ?Q xs = Some x"
        "f (heap m) v = Some x"
    by (elim disjE conjE exE)
  then show ?thesis
  proof cases
    case absent
    with l have "find_copy root i m = Some (None, m)" by (simp add: find_copy_def)
    with absent(2) show ?thesis by simp
  next
    case present
    from copy [OF present(3)] obtain r h1 where c: "spread_copy v (heap m) = Some (r, h1)"
      and r: "f h1 r = Some x" by auto
    from spread_copy_shape [OF c] obtain ps where
      s: "r = Ref (length (heap m))" "h1 = heap m @ [Obj ps]" by auto
    from l present(1) c have "find_copy root i m = Some (Some r, m\<lparr>heap := h1\<rparr>)"
      by (simp add: find_copy_def)
    moreover have "returned_cells h1 r = [length (heap m)]"
      using s by (simp add: returned_cells_obj)
    ultimately show ?thesis using r present(2) s(2) by simp
  qed
qed

lemma student_at_id:
  "student_at h v = Some x \<Longrightarrow> get_prop h v ''id'' = Some (Str i) \<longleftrightarrow> id' x = i"
  by (auto simp: student_at_def split: option.splits jsval.splits)

lemma teacher_at_id:
  "teacher_at h v = Some x \<Longrightarrow> get_prop h v ''id'' = Some (Str i) \<longleftrightarrow> id' x = i"
  by (auto simp: teacher_at_def student_at_def split: option.splits jsval.splits)

lemma store_of_SomeD:
  "store_of m = Some s \<Longrightarrow>
   records_at student_at (heap m) (Ref (students_ref m)) = Some (students s) \<and>
   records_at teacher_at (heap m) (Ref (teachers_ref m)) = Some (teachers s)"
  by (auto simp: store_of_def split: option.splits)

lemma store_of_frame:
  assumes "store_of m = Some s" and "prefix (heap m) (heap m')"
    and "students_ref m' = students_ref m" and "teachers_ref m' = teachers_ref m"
  shows "store_of m' = Some s \<and>
     (\<forall>b. length (heap m) \<le> b \<longrightarrow> (\<forall>c. store_of (mutate b c m') = Some s))"
proof -
  from store_of_prefix [OF assms(1,2)] assms(3,4) have "store_of m' = Some s"
    by (simp add: store_of_def)
  moreover have "store_of (mutate b c m') = Some s" if "length (heap m) \<le> b" for b c
    using assms that by (rule store_of_mutate)
  ultimately show ?thesis by blast
qed

subsection \<open>What a returned record shares with the store\<close>

text \<open>
  C1, as stated, at a concrete input. The record that \<^verbatim>\<open>getTeacherById\<close> returns
  is a new object, but its property \<^verbatim>\<open>specialization\<close> is the reference held by
  the stored teacher (cell 0). A \<^verbatim>\<open>push\<close> on that array through the returned
  record changes the stored collection: the copy is shallow.
\<close>

theorem getTeacherById_shares_specialization:
  "store_of example_memory = Some example_store \<and>
   getTeacherById_ref (latin1 ''T100200301'') example_memory =
     Some (Some (Ref 5), example_memory\<lparr>heap := heap example_memory @ [ada_cell]\<rparr>) \<and>
   get_prop (heap example_memory @ [ada_cell]) (Ref 5) ''specialization'' = Some (Ref 0) \<and>
   store_of (mutate 0 (Arr [Str (latin1 ''Mathematics''), Str (latin1 ''Physics'')])
      (example_memory\<lparr>heap := heap example_memory @ [ada_cell]\<rparr>)) =
     Some (example_store\<lparr>teachers := [ada\<lparr>specialization := [(latin1 ''Mathematics''), (latin1 ''Physics'')]\<rparr>]\<rparr>) \<and>
   store_of (mutate 0 (Arr [Str (latin1 ''Mathematics''), Str (latin1 ''Physics'')])
      (example_memory\<lparr>heap := heap example_memory @ [ada_cell]\<rparr>)) \<noteq> Some example_store"
  by code_simp

text \<open>
  C1, amended. In a memory that holds well-formed collections, the list and
  lookup operations (\<^verbatim>\<open>getStudents\<close>, \<^verbatim>\<open>getTeachers\<close>, \<^verbatim>\<open>getStudentById\<close>,
  \<^verbatim>\<open>getTeacherById\<close>) return, and what they return has the values of the stored
  records. The returned list and every returned record are new objects: the stored
  collections are unchanged by the call, and they stay unchanged under every
  mutation of the returned list object or of a returned record object. Objects
  that a returned record refers to, such as the specialization array of a teacher,
  are not covered.
\<close>

theorem reads_return_fresh_copies:
  assumes "store_of m = Some s"
  shows
    "(\<exists>r m'. getStudents_ref m = Some (r, m') \<and>
        records_at student_at (heap m') r = Some (getStudents s) \<and>
        store_of m' = Some s \<and>
        (\<forall>b \<in> set (returned_cells (heap m') r). \<forall>c. store_of (mutate b c m') = Some s)) \<and>
     (\<exists>r m'. getTeachers_ref m = Some (r, m') \<and>
        records_at teacher_at (heap m') r = Some (getTeachers s) \<and>
        store_of m' = Some s \<and>
        (\<forall>b \<in> set (returned_cells (heap m') r). \<forall>c. store_of (mutate b c m') = Some s)) \<and>
     (\<exists>r m'. getStudentById_ref i m = Some (r, m') \<and>
        Option.bind r (student_at (heap m')) = getStudentById i s \<and>
        store_of m' = Some s \<and>
        (\<forall>v. r = Some v \<longrightarrow>
           (\<forall>b \<in> set (returned_cells (heap m') v). \<forall>c. store_of (mutate b c m') = Some s))) \<and>
     (\<exists>r m'. getTeacherById_ref j m = Some (r, m') \<and>
        Option.bind r (teacher_at (heap m')) = getTeacherById j s \<and>
        store_of m' = Some s \<and>
        (\<forall>v. r = Some v \<longrightarrow>
           (\<forall>b \<in> set (returned_cells (heap m') v). \<forall>c. store_of (mutate b c m') = Some s)))"
proof -
  note st = store_of_SomeD [OF assms]
  have "\<exists>r m'. list_copies (students_ref m) m = Some (r, m') \<and>
      records_at student_at (heap m') r = Some (students s) \<and>
      prefix (heap m) (heap m') \<and> students_ref m' = students_ref m \<and>
      teachers_ref m' = teachers_ref m \<and>
      (\<forall>b \<in> set (returned_cells (heap m') r). length (heap m) \<le> b)"
    by (rule list_copies_fresh [where f = student_at])
      (erule (1) student_at_prefix, erule student_at_copy, simp add: st)
  then obtain r1 m1 where a1: "list_copies (students_ref m) m = Some (r1, m1)"
    "records_at student_at (heap m1) r1 = Some (students s)"
    "\<forall>b \<in> set (returned_cells (heap m1) r1). length (heap m) \<le> b"
    and p1: "prefix (heap m) (heap m1)" "students_ref m1 = students_ref m"
      "teachers_ref m1 = teachers_ref m"
    by blast
  from store_of_frame [OF assms p1] a1
  have s1: "\<exists>r m'. getStudents_ref m = Some (r, m') \<and>
        records_at student_at (heap m') r = Some (getStudents s) \<and>
        store_of m' = Some s \<and>
        (\<forall>b \<in> set (returned_cells (heap m') r). \<forall>c. store_of (mutate b c m') = Some s)"
    by (auto simp: getStudents_ref_def getStudents_def)
  have "\<exists>r m'. list_copies (teachers_ref m) m = Some (r, m') \<and>
      records_at teacher_at (heap m') r = Some (teachers s) \<and>
      prefix (heap m) (heap m') \<and> students_ref m' = students_ref m \<and>
      teachers_ref m' = teachers_ref m \<and>
      (\<forall>b \<in> set (returned_cells (heap m') r). length (heap m) \<le> b)"
    by (rule list_copies_fresh [where f = teacher_at])
      (erule (1) teacher_at_prefix, erule teacher_at_copy, simp add: st)
  then obtain r2 m2 where a2: "list_copies (teachers_ref m) m = Some (r2, m2)"
    "records_at teacher_at (heap m2) r2 = Some (teachers s)"
    "\<forall>b \<in> set (returned_cells (heap m2) r2). length (heap m) \<le> b"
    and p2: "prefix (heap m) (heap m2)" "students_ref m2 = students_ref m"
      "teachers_ref m2 = teachers_ref m"
    by blast
  from store_of_frame [OF assms p2] a2
  have s2: "\<exists>r m'. getTeachers_ref m = Some (r, m') \<and>
        records_at teacher_at (heap m') r = Some (getTeachers s) \<and>
        store_of m' = Some s \<and>
        (\<forall>b \<in> set (returned_cells (heap m') r). \<forall>c. store_of (mutate b c m') = Some s)"
    by (auto simp: getTeachers_ref_def getTeachers_def)
  have "\<exists>r m'. find_copy (students_ref m) i m = Some (r, m') \<and>
     Option.bind r (student_at (heap m')) = List.find (\<lambda>x. id' x = i) (students s) \<and>
     prefix (heap m) (heap m') \<and> students_ref m' = students_ref m \<and>
     teachers_ref m' = teachers_ref m \<and>
     (\<forall>v. r = Some v \<longrightarrow> (\<forall>b \<in> set (returned_cells (heap m') v). length (heap m) \<le> b))"
    by (rule find_copy_fresh [where f = student_at])
      (erule student_at_copy, erule student_at_id, simp add: st)
  then obtain r3 m3 where a3: "find_copy (students_ref m) i m = Some (r3, m3)"
    "Option.bind r3 (student_at (heap m3)) = List.find (\<lambda>x. id' x = i) (students s)"
    "\<forall>v. r3 = Some v \<longrightarrow> (\<forall>b \<in> set (returned_cells (heap m3) v). length (heap m) \<le> b)"
    and p3: "prefix (heap m) (heap m3)" "students_ref m3 = students_ref m"
      "teachers_ref m3 = teachers_ref m"
    by blast
  from store_of_frame [OF assms p3] a3
  have s3: "\<exists>r m'. getStudentById_ref i m = Some (r, m') \<and>
        Option.bind r (student_at (heap m')) = getStudentById i s \<and>
        store_of m' = Some s \<and>
        (\<forall>v. r = Some v \<longrightarrow>
           (\<forall>b \<in> set (returned_cells (heap m') v). \<forall>c. store_of (mutate b c m') = Some s))"
    by (auto simp: getStudentById_ref_def getStudentById_def)
  have "\<exists>r m'. find_copy (teachers_ref m) j m = Some (r, m') \<and>
     Option.bind r (teacher_at (heap m')) = List.find (\<lambda>x. id' x = j) (teachers s) \<and>
     prefix (heap m) (heap m') \<and> students_ref m' = students_ref m \<and>
     teachers_ref m' = teachers_ref m \<and>
     (\<forall>v. r = Some v \<longrightarrow> (\<forall>b \<in> set (returned_cells (heap m') v). length (heap m) \<le> b))"
    by (rule find_copy_fresh [where f = teacher_at])
      (erule teacher_at_copy, erule teacher_at_id, simp add: st)
  then obtain r4 m4 where a4: "find_copy (teachers_ref m) j m = Some (r4, m4)"
    "Option.bind r4 (teacher_at (heap m4)) = List.find (\<lambda>x. id' x = j) (teachers s)"
    "\<forall>v. r4 = Some v \<longrightarrow> (\<forall>b \<in> set (returned_cells (heap m4) v). length (heap m) \<le> b)"
    and p4: "prefix (heap m) (heap m4)" "students_ref m4 = students_ref m"
      "teachers_ref m4 = teachers_ref m"
    by blast
  from store_of_frame [OF assms p4] a4
  have s4: "\<exists>r m'. getTeacherById_ref j m = Some (r, m') \<and>
        Option.bind r (teacher_at (heap m')) = getTeacherById j s \<and>
        store_of m' = Some s \<and>
        (\<forall>v. r = Some v \<longrightarrow>
           (\<forall>b \<in> set (returned_cells (heap m') v). \<forall>c. store_of (mutate b c m') = Some s))"
    by (auto simp: getTeacherById_ref_def getTeacherById_def)
  from s1 s2 s3 s4 show ?thesis by (intro conjI)
qed

theorem reads_return_fresh_copies_witness:
  "store_of example_memory = Some example_store \<and>
   getTeacherById_ref (latin1 ''T100200301'') example_memory =
     Some (Some (Ref 5), example_memory\<lparr>heap := heap example_memory @ [ada_cell]\<rparr>) \<and>
   store_of (mutate 5 (Obj [(''id'', Str (latin1 ''changed''))])
      (example_memory\<lparr>heap := heap example_memory @ [ada_cell]\<rparr>)) = Some example_store \<and>
   (\<exists>r m'. getStudents_ref example_memory = Some (r, m') \<and>
      records_at student_at (heap m') r = Some [john] \<and> store_of m' = Some example_store)"
proof -
  let ?M = "example_memory\<lparr>heap := heap example_memory @ [ada_cell]\<rparr>"
  have e: "getTeacherById_ref (latin1 ''T100200301'') example_memory = Some (Some (Ref 5), ?M)"
    by code_simp
  have c: "returned_cells (heap ?M) (Ref 5) = [5]"
    by code_simp
  have g: "getStudents example_store = [john]"
    by (simp add: getStudents_def example_store_def)
  note t = reads_return_fresh_copies [OF example_memory_store,
      of "latin1 ''1234500001''" "latin1 ''T100200301''"]
  from t e c have "store_of (mutate 5 (Obj [(''id'', Str (latin1 ''changed''))]) ?M) = Some example_store"
    by auto
  moreover from t g have "\<exists>r m'. getStudents_ref example_memory = Some (r, m') \<and>
      records_at student_at (heap m') r = Some [john] \<and> store_of m' = Some example_store"
    by auto
  ultimately show ?thesis using example_memory_store e by simp
qed

subsection \<open>Search returns the stored objects\<close>

text \<open>
  On references, search returns a new array with the records that the search on
  values returns, but its elements are the references of the stored array:
  \<^verbatim>\<open>filter\<close> copies no object, unlike the \<^verbatim>\<open>map\<close> with a spread of the list
  operation. In the example a write to the record found changes the stored student.
\<close>

lemma filter_match_subset: "filter_match h q vs = Some rs \<Longrightarrow> set rs \<subseteq> set vs"
proof (induction vs arbitrary: rs)
  case Nil
  then show ?case by simp
next
  case (Cons v vs)
  have ih: "set z \<subseteq> set vs" if "filter_match h q vs = Some z" for z
    using that by (rule Cons.IH)
  from Cons.prems show ?case
    by (auto split: option.splits jsval.splits if_splits dest!: ih)
qed

lemma search_refs_aliases:
  assumes "search_refs root query m = Some (r, m')"
  shows "\<exists>vs rs. lookup (heap m) root = Some (Arr vs) \<and> r = Ref (length (heap m)) \<and>
     heap m' = heap m @ [Arr rs] \<and> set rs \<subseteq> set vs"
proof -
  from assms obtain vs rs where l: "lookup (heap m) root = Some (Arr vs)"
    and f: "filter_match (heap m) (toLowerCase query) vs = Some rs"
    and r: "r = Ref (length (heap m))" "m' = m\<lparr>heap := heap m @ [Arr rs]\<rparr>"
    by (auto simp: search_refs_def Let_def split: option.splits cell.splits)
  from filter_match_subset [OF f] l r show ?thesis by simp
qed

lemma filter_match_views:
  assumes fields: "\<And>v x. f v = Some x \<Longrightarrow>
      get_prop h v ''name'' = Some (Str (name x)) \<and>
      get_prop h v ''email'' = Some (Str (email x))"
    and "list_all2 (\<lambda>v x. f v = Some x) vs xs"
  shows "\<exists>rs. filter_match h q vs = Some rs \<and>
     list_all2 (\<lambda>v x. f v = Some x) rs
       (filter (\<lambda>x. includes_str (toLowerCase (name x)) q \<or>
                    includes_str (toLowerCase (email x)) q) xs)"
  using assms(2)
proof (induction rule: list_all2_induct)
  case Nil
  then show ?case by simp
next
  case (Cons v vs x xs)
  from Cons.hyps(1) have "get_prop h v ''name'' = Some (Str (name x)) \<and>
      get_prop h v ''email'' = Some (Str (email x))"
    by (rule fields)
  with Cons show ?case by auto
qed

lemma student_at_fields:
  "student_at h v = Some x \<Longrightarrow>
   get_prop h v ''name'' = Some (Str (name x)) \<and> get_prop h v ''email'' = Some (Str (email x))"
  by (auto simp: student_at_def split: option.splits jsval.splits)

lemma teacher_at_fields:
  "teacher_at h v = Some x \<Longrightarrow>
   get_prop h v ''name'' = Some (Str (name x)) \<and> get_prop h v ''email'' = Some (Str (email x))"
  by (auto simp: teacher_at_def student_at_def split: option.splits jsval.splits)

lemma search_refs_views:
  assumes mono: "\<And>h h' v x. f h v = Some x \<Longrightarrow> prefix h h' \<Longrightarrow> f h' v = Some x"
    and fields: "\<And>h v x. f h v = Some x \<Longrightarrow>
      get_prop h v ''name'' = Some (Str (name x)) \<and>
      get_prop h v ''email'' = Some (Str (email x))"
    and "records_at f (heap m) (Ref root) = Some xs"
  shows "\<exists>r m'. search_refs root query m = Some (r, m') \<and>
     records_at f (heap m') r =
       Some (filter (\<lambda>x. includes_str (toLowerCase (name x)) (toLowerCase query) \<or>
                          includes_str (toLowerCase (email x)) (toLowerCase query)) xs)"
proof -
  from assms(3) obtain vs where l: "lookup (heap m) root = Some (Arr vs)"
    and t: "those (map (f (heap m)) vs) = Some xs"
    by (auto simp: records_at_def split: option.splits cell.splits)
  let ?q = "toLowerCase query"
  let ?ys = "filter (\<lambda>x. includes_str (toLowerCase (name x)) ?q \<or>
                          includes_str (toLowerCase (email x)) ?q) xs"
  from t have "list_all2 (\<lambda>v x. f (heap m) v = Some x) vs xs" by (simp add: those_map_Some)
  then have "\<exists>rs. filter_match (heap m) ?q vs = Some rs \<and>
      list_all2 (\<lambda>v x. f (heap m) v = Some x) rs ?ys"
    by (rule filter_match_views [where f = "f (heap m)", rotated]) (erule fields)
  then obtain rs where fm: "filter_match (heap m) ?q vs = Some rs"
    and v: "list_all2 (\<lambda>v x. f (heap m) v = Some x) rs ?ys"
    by blast
  from v have "list_all2 (\<lambda>v x. f (heap m @ [Arr rs]) v = Some x) rs ?ys"
    by (rule list_all2_mono) (rule mono, assumption, simp)
  then have "records_at f (heap m @ [Arr rs]) (Ref (length (heap m))) = Some ?ys"
    by (simp add: records_at_def lookup_def those_map_Some)
  with l fm show ?thesis by (simp add: search_refs_def Let_def)
qed

lemma search_ref_returns_search:
  assumes "store_of m = Some s"
  shows "\<exists>r m'. searchStudents_ref query m = Some (r, m') \<and>
           records_at student_at (heap m') r = Some (searchStudents query s)"
    and "\<exists>r m'. searchTeachers_ref query m = Some (r, m') \<and>
           records_at teacher_at (heap m') r = Some (searchTeachers query s)"
proof -
  note st = store_of_SomeD [OF assms]
  have "\<exists>r m'. search_refs (students_ref m) query m = Some (r, m') \<and>
     records_at student_at (heap m') r =
       Some (filter (\<lambda>x. includes_str (toLowerCase (name x)) (toLowerCase query) \<or>
                          includes_str (toLowerCase (email x)) (toLowerCase query))
               (students s))"
    by (rule search_refs_views [where f = student_at])
      (erule (1) student_at_prefix, erule student_at_fields, simp add: st)
  then show "\<exists>r m'. searchStudents_ref query m = Some (r, m') \<and>
           records_at student_at (heap m') r = Some (searchStudents query s)"
    by (simp add: searchStudents_ref_def searchStudents_def Let_def)
  have "\<exists>r m'. search_refs (teachers_ref m) query m = Some (r, m') \<and>
     records_at teacher_at (heap m') r =
       Some (filter (\<lambda>x. includes_str (toLowerCase (name x)) (toLowerCase query) \<or>
                          includes_str (toLowerCase (email x)) (toLowerCase query))
               (teachers s))"
    by (rule search_refs_views [where f = teacher_at])
      (erule (1) teacher_at_prefix, erule teacher_at_fields, simp add: st)
  then show "\<exists>r m'. searchTeachers_ref query m = Some (r, m') \<and>
           records_at teacher_at (heap m') r = Some (searchTeachers query s)"
    by (simp add: searchTeachers_ref_def searchTeachers_def Let_def)
qed

lemma searchStudents_returns_stored_object:
  "searchStudents_ref (latin1 ''JOHN'') example_memory =
     Some (Ref 5, example_memory\<lparr>heap := heap example_memory @ [Arr [Ref 3]]\<rparr>) \<and>
   returned_cells (heap example_memory @ [Arr [Ref 3]]) (Ref 5) = [5, 3] \<and>
   store_of (mutate 3 (Obj [(''id'', Str (latin1 ''1234500001'')), (''name'', Str (latin1 ''Changed'')),
        (''email'', Str (latin1 ''john@x.edu'')), (''password'', Str (latin1 ''Student@001''))])
      (example_memory\<lparr>heap := heap example_memory @ [Arr [Ref 3]]\<rparr>)) =
     Some (example_store\<lparr>students := [john\<lparr>name := latin1 ''Changed''\<rparr>]\<rparr>)"
  by code_simp

end
